theory Spec2Isabelle
  imports Complex_Main
begin

section \<open>Numbers\<close>

text \<open>
  The designer page (\<^verbatim>\<open>src/pages/Designer/DesignerPage.tsx\<close>) computes with
  JavaScript numbers. They are modelled as real numbers: every value is finite and
  arithmetic is exact. Rounding of IEEE doubles, \<^verbatim>\<open>NaN\<close> and the infinities are
  outside this model: a quotient with divisor zero, which JavaScript evaluates to
  \<^verbatim>\<open>NaN\<close> or an infinity, has no counterpart here, and the theorems below that
  involve a quotient assume that its divisor is not zero.
\<close>

type_synonym number = real

section \<open>Geometry: background placement and safe zone\<close>

text \<open>The part of an \<^verbatim>\<open>HTMLImageElement\<close> that the page reads.\<close>

record HTMLImage =
  image_width :: number
  image_height :: number

text \<open>
  \<^verbatim>\<open>Variant\<close> of \<^verbatim>\<open>src/types/api.ts\<close>, with the fields the designer consumes.
  The print area is given in the pixel space of the mockup image.
\<close>

record Variant =
  variant_id :: number
  price :: number
  frontImage :: string
  printAreaTop :: number
  printAreaLeft :: number
  printAreaWidth :: number
  printAreaHeight :: number

record BgDraw =
  bg_x :: number
  bg_y :: number
  bg_width :: number
  bg_height :: number
  bg_scale :: number

record SafeZone =
  sz_x :: number
  sz_y :: number
  sz_width :: number
  sz_height :: number

definition DESIGN_W :: number where
  "DESIGN_W = 520"

definition DESIGN_H :: number where
  "DESIGN_H = 680"

text \<open>
  \<^verbatim>\<open>bgDraw\<close> (lines 236-250): \<^verbatim>\<open>null\<close> while the image is not loaded, otherwise
  the letterboxed placement of the mockup.
\<close>

definition bgDraw :: "HTMLImage option \<Rightarrow> BgDraw option" where
  "bgDraw bgImage =
     (case bgImage of
        None \<Rightarrow> None
      | Some img \<Rightarrow>
          (let scale = min (DESIGN_W / image_width img) (DESIGN_H / image_height img);
               width = image_width img * scale;
               height = image_height img * scale
           in Some \<lparr>bg_x = (DESIGN_W - width) / 2,
                    bg_y = (DESIGN_H - height) / 2,
                    bg_width = width,
                    bg_height = height,
                    bg_scale = scale\<rparr>))"

text \<open>
  \<^verbatim>\<open>safeZone\<close> (lines 253-266): \<^verbatim>\<open>null\<close> unless variant, background placement and
  image are all present.
\<close>

definition safeZone :: "Variant option \<Rightarrow> BgDraw option \<Rightarrow> HTMLImage option \<Rightarrow> SafeZone option" where
  "safeZone variant bg bgImage =
     (case (variant, bg, bgImage) of
        (Some v, Some d, Some img) \<Rightarrow>
          (let sx = bg_width d / image_width img;
               sy = bg_height d / image_height img
           in Some \<lparr>sz_x = bg_x d + printAreaLeft v * sx,
                    sz_y = bg_y d + printAreaTop v * sy,
                    sz_width = printAreaWidth v * sx,
                    sz_height = printAreaHeight v * sy\<rparr>)
      | _ \<Rightarrow> None)"

text \<open>The safe zone as the component derives it: from the variant and the loaded image.\<close>

definition pageSafeZone :: "Variant option \<Rightarrow> HTMLImage option \<Rightarrow> SafeZone option" where
  "pageSafeZone variant bgImage = safeZone variant (bgDraw bgImage) bgImage"

text \<open>\<^verbatim>\<open>clamp\<close> (lines 934-936).\<close>

definition clamp :: "number \<Rightarrow> number \<Rightarrow> number \<Rightarrow> number" where
  "clamp v lo hi = max lo (min hi v)"

text \<open>
  A rectangle with top-left corner \<open>(x, y)\<close> and size \<open>w\<close> by \<open>h\<close> lies inside the
  safe zone: the comparison the clamping code aims at.
\<close>

definition rect_in_zone :: "SafeZone \<Rightarrow> number \<Rightarrow> number \<Rightarrow> number \<Rightarrow> number \<Rightarrow> bool" where
  "rect_in_zone z x y w h \<longleftrightarrow>
     sz_x z \<le> x \<and> x + w \<le> sz_x z + sz_width z \<and>
     sz_y z \<le> y \<and> y + h \<le> sz_y z + sz_height z"

section \<open>Design objects\<close>

record DesignImageItem =
  img_id :: string
  img_url :: string
  img_x :: number
  img_y :: number
  img_width :: number
  img_height :: number
  img_rotation :: number

record DesignTextItem =
  txt_id :: string
  txt_text :: string
  txt_x :: number
  txt_y :: number
  txt_rotation :: number
  txt_fontSize :: number
  txt_fontFamily :: string
  txt_fill :: string

text \<open>The tagged union \<^verbatim>\<open>DesignObject\<close>; the constructor is the \<^verbatim>\<open>type\<close> tag.\<close>

datatype DesignObject = ImageObj DesignImageItem | TextObj DesignTextItem

fun obj_id :: "DesignObject \<Rightarrow> string" where
  "obj_id (ImageObj it) = img_id it"
| "obj_id (TextObj it) = txt_id it"

section \<open>Canvas nodes and their handlers\<close>

text \<open>
  The attributes of a Konva node that the handlers read and write. For an image node
  width and height are the props; for a text node Konva measures them from the text.
\<close>

record KonvaNode =
  node_x :: number
  node_y :: number
  node_width :: number
  node_height :: number
  node_scaleX :: number
  node_scaleY :: number
  node_rotation :: number

text \<open>The node as \<^verbatim>\<open>DesignImage\<close> renders it (lines 956-962), scale untouched.\<close>

definition image_node :: "DesignImageItem \<Rightarrow> KonvaNode" where
  "image_node item =
     \<lparr>node_x = img_x item, node_y = img_y item,
      node_width = img_width item, node_height = img_height item,
      node_scaleX = 1, node_scaleY = 1, node_rotation = img_rotation item\<rparr>"

text \<open>
  The node as \<^verbatim>\<open>DesignText\<close> renders it (lines 61-74); \<open>metrics\<close> gives the measured
  width and height of the text, which the item does not store.
\<close>

definition text_node :: "(DesignTextItem \<Rightarrow> number \<times> number) \<Rightarrow> DesignTextItem \<Rightarrow> KonvaNode" where
  "text_node metrics item =
     \<lparr>node_x = txt_x item, node_y = txt_y item,
      node_width = fst (metrics item), node_height = snd (metrics item),
      node_scaleX = 1, node_scaleY = 1, node_rotation = txt_rotation item\<rparr>"

text \<open>
  \<^verbatim>\<open>offsetX\<close> and \<^verbatim>\<open>offsetY\<close> of the text node (lines 73-74). The source's
  \<^verbatim>\<open>|| 0\<close> replaces a zero (or \<^verbatim>\<open>NaN\<close>) product by zero, which changes nothing here.
\<close>

definition text_offsetX :: "DesignTextItem \<Rightarrow> number" where
  "text_offsetX item = real (length (txt_text item)) * txt_fontSize item * 0.25"

definition text_offsetY :: "DesignTextItem \<Rightarrow> number" where
  "text_offsetY item = txt_fontSize item * 0.5"

text \<open>\<^verbatim>\<open>DesignImage.onDragMove\<close> (lines 967-977).\<close>

definition image_onDragMove :: "SafeZone \<Rightarrow> KonvaNode \<Rightarrow> KonvaNode" where
  "image_onDragMove zone node =
     (let w = node_width node;
          h = node_height node;
          nextX = clamp (node_x node) (sz_x zone) (sz_x zone + sz_width zone - w);
          nextY = clamp (node_y node) (sz_y zone) (sz_y zone + sz_height zone - h)
      in node\<lparr>node_x := nextX, node_y := nextY\<rparr>)"

text \<open>\<^verbatim>\<open>DesignImage.onDragEnd\<close> (lines 978-984).\<close>

definition image_onDragEnd :: "DesignImageItem \<Rightarrow> KonvaNode \<Rightarrow> DesignImageItem" where
  "image_onDragEnd item node = item\<lparr>img_x := node_x node, img_y := node_y node\<rparr>"

text \<open>
  \<^verbatim>\<open>DesignImage.onTransformEnd\<close> (lines 985-1013): returns the node as the handler
  leaves it and the item it passes to \<^verbatim>\<open>onChange\<close>.
\<close>

definition image_onTransformEnd ::
  "SafeZone \<Rightarrow> DesignImageItem \<Rightarrow> KonvaNode \<Rightarrow> KonvaNode \<times> DesignImageItem" where
  "image_onTransformEnd zone item node =
     (let scaleX = node_scaleX node;
          scaleY = node_scaleY node;
          node1 = node\<lparr>node_scaleX := 1, node_scaleY := 1\<rparr>;
          nextWidth = max 5 (node_width node1 * scaleX);
          nextHeight = max 5 (node_height node1 * scaleY);
          maxX = sz_x zone + sz_width zone;
          maxY = sz_y zone + sz_height zone;
          nextX = clamp (node_x node1) (sz_x zone) (maxX - nextWidth);
          nextY = clamp (node_y node1) (sz_y zone) (maxY - nextHeight);
          node2 = node1\<lparr>node_x := nextX, node_y := nextY\<rparr>
      in (node2,
          item\<lparr>img_x := nextX, img_y := nextY,
               img_width := nextWidth, img_height := nextHeight,
               img_rotation := node_rotation node2\<rparr>))"

text \<open>\<^verbatim>\<open>DesignText.onDragMove\<close> (lines 75-85).\<close>

definition text_onDragMove :: "SafeZone \<Rightarrow> KonvaNode \<Rightarrow> KonvaNode" where
  "text_onDragMove zone node =
     (let w = node_width node;
          h = node_height node;
          nextX = clamp (node_x node) (sz_x zone) (sz_x zone + sz_width zone - w);
          nextY = clamp (node_y node) (sz_y zone) (sz_y zone + sz_height zone - h)
      in node\<lparr>node_x := nextX, node_y := nextY\<rparr>)"

text \<open>\<^verbatim>\<open>DesignText.onDragEnd\<close> (lines 86-92).\<close>

definition text_onDragEnd :: "DesignTextItem \<Rightarrow> KonvaNode \<Rightarrow> DesignTextItem" where
  "text_onDragEnd item node = item\<lparr>txt_x := node_x node, txt_y := node_y node\<rparr>"

text \<open>\<^verbatim>\<open>DesignText.onTransformEnd\<close> (lines 93-107).\<close>

definition text_onTransformEnd :: "DesignTextItem \<Rightarrow> KonvaNode \<Rightarrow> KonvaNode \<times> DesignTextItem" where
  "text_onTransformEnd item node =
     (let scaleX = node_scaleX node;
          nextFontSize = max 12 (min 100 (txt_fontSize item * scaleX));
          node1 = node\<lparr>node_scaleX := 1, node_scaleY := 1\<rparr>
      in (node1,
          item\<lparr>txt_x := node_x node1, txt_y := node_y node1,
               txt_rotation := node_rotation node1,
               txt_fontSize := nextFontSize\<rparr>))"

text \<open>
  The box the selection overlay works with, and \<^verbatim>\<open>boundBoxFunc\<close> of the
  \<^verbatim>\<open>Transformer\<close> (lines 727-746), which accepts or replaces each box proposed
  during a resize.
\<close>

record Box =
  box_x :: number
  box_y :: number
  box_width :: number
  box_height :: number
  box_rotation :: number

definition boundBoxFunc :: "SafeZone option \<Rightarrow> Box \<Rightarrow> Box \<Rightarrow> Box" where
  "boundBoxFunc zone oldBox newBox =
     (case zone of
        None \<Rightarrow> oldBox
      | Some z \<Rightarrow>
          (let minSize = 20 in
           if box_width newBox < minSize \<or> box_height newBox < minSize then oldBox
           else
             (let maxX = sz_x z + sz_width z;
                  maxY = sz_y z + sz_height z;
                  n1 = (if box_x newBox < sz_x z then newBox\<lparr>box_x := sz_x z\<rparr> else newBox);
                  n2 = (if box_y n1 < sz_y z then n1\<lparr>box_y := sz_y z\<rparr> else n1);
                  n3 = (if box_x n2 + box_width n2 > maxX
                        then n2\<lparr>box_x := maxX - box_width n2\<rparr> else n2);
                  n4 = (if box_y n3 + box_height n3 > maxY
                        then n3\<lparr>box_y := maxY - box_height n3\<rparr> else n3)
              in n4)))"

section \<open>Where an object is drawn\<close>

text \<open>
  Konva draws a node's own rectangle \<open>[0, w] \<times> [0, h]\<close> moved by minus the offset,
  turned by \<open>rotation\<close> degrees about the node's position and placed at \<open>(x, y)\<close>.
  \<open>place\<close> maps a point of the node's own coordinates to the canvas.
\<close>

definition place :: "number \<Rightarrow> number \<Rightarrow> number \<Rightarrow> number \<times> number \<Rightarrow> number \<times> number" where
  "place x y rotation p =
     (x + fst p * cos (rotation * pi / 180) - snd p * sin (rotation * pi / 180),
      y + fst p * sin (rotation * pi / 180) + snd p * cos (rotation * pi / 180))"

definition point_in_zone :: "SafeZone \<Rightarrow> number \<times> number \<Rightarrow> bool" where
  "point_in_zone z p \<longleftrightarrow>
     sz_x z \<le> fst p \<and> fst p \<le> sz_x z + sz_width z \<and>
     sz_y z \<le> snd p \<and> snd p \<le> sz_y z + sz_height z"

text \<open>
  The drawn rectangle, and with it its bounding box, lies inside the safe zone exactly
  when its four corners do.
\<close>

definition drawn_in_zone ::
  "SafeZone \<Rightarrow> number \<Rightarrow> number \<Rightarrow> number \<Rightarrow> number \<Rightarrow> number \<Rightarrow> number \<Rightarrow> number \<Rightarrow> bool" where
  "drawn_in_zone z x y offsetX offsetY w h rotation \<longleftrightarrow>
     point_in_zone z (place x y rotation (- offsetX, - offsetY)) \<and>
     point_in_zone z (place x y rotation (w - offsetX, - offsetY)) \<and>
     point_in_zone z (place x y rotation (w - offsetX, h - offsetY)) \<and>
     point_in_zone z (place x y rotation (- offsetX, h - offsetY))"

definition image_in_zone :: "SafeZone \<Rightarrow> DesignImageItem \<Rightarrow> bool" where
  "image_in_zone z item \<longleftrightarrow>
     drawn_in_zone z (img_x item) (img_y item) 0 0
       (img_width item) (img_height item) (img_rotation item)"

definition text_in_zone ::
  "(DesignTextItem \<Rightarrow> number \<times> number) \<Rightarrow> SafeZone \<Rightarrow> DesignTextItem \<Rightarrow> bool" where
  "text_in_zone metrics z item \<longleftrightarrow>
     drawn_in_zone z (txt_x item) (txt_y item) (text_offsetX item) (text_offsetY item)
       (fst (metrics item)) (snd (metrics item)) (txt_rotation item)"

text \<open>
  The size of a text whose offsets (lines 73-74) are exactly half its width and half its
  height, so that the node's position is the centre of the text: the estimate of the
  text's size that those offsets stand for.
\<close>

definition estimatedMetrics :: "DesignTextItem \<Rightarrow> number \<times> number" where
  "estimatedMetrics item = (2 * text_offsetX item, 2 * text_offsetY item)"

section \<open>The design session\<close>

record DesignSession =
  objects :: "DesignObject list"
  selectedId :: "string option"

definition emptySession :: DesignSession where
  "emptySession = \<lparr>objects = [], selectedId = None\<rparr>"

text \<open>
  Decimal digits of a natural number, as the template literal prints \<^verbatim>\<open>Date.now()\<close>.
\<close>

definition digit :: "nat \<Rightarrow> char" where
  "digit d = ''0123456789'' ! d"

fun decimal :: "nat \<Rightarrow> string" where
  "decimal n = (if n < 10 then [digit n] else decimal (n div 10) @ [digit (n mod 10)])"

declare decimal.simps [simp del]

text \<open>
  The ids of lines 295 and 321. \<open>now\<close> is the value of \<^verbatim>\<open>Date.now()\<close> and \<open>rnd\<close>
  the hexadecimal digits \<^verbatim>\<open>Math.random().toString(16).slice(2)\<close>; both come from
  outside and are parameters here.
\<close>

definition image_id :: "nat \<Rightarrow> string \<Rightarrow> string" where
  "image_id now rnd = ''img_'' @ decimal now @ ''_'' @ rnd"

definition text_id :: "nat \<Rightarrow> string \<Rightarrow> string" where
  "text_id now rnd = ''txt_'' @ decimal now @ ''_'' @ rnd"

datatype error = PrintAreaNotReady | UploadFailed

text \<open>The object literal of lines 305-314.\<close>

definition newImage :: "SafeZone \<Rightarrow> string \<Rightarrow> string \<Rightarrow> DesignImageItem" where
  "newImage zone ident url =
     (let initialW = min 240 (sz_width zone);
          initialH = initialW;
          x = sz_x zone + (sz_width zone - initialW) / 2;
          y = sz_y zone + (sz_height zone - initialH) / 2
      in \<lparr>img_id = ident, img_url = url, img_x = x, img_y = y,
          img_width = initialW, img_height = initialH, img_rotation = 0\<rparr>)"

text \<open>
  \<^verbatim>\<open>onUploadFileSelected\<close> (lines 289-317). \<open>asset\<close> is the outcome of
  \<^verbatim>\<open>uploadAsset\<close>: the url of the stored asset, or \<open>None\<close> when the upload is rejected.
\<close>

definition onUploadFileSelected ::
  "SafeZone option \<Rightarrow> string option \<Rightarrow> nat \<Rightarrow> string \<Rightarrow> DesignSession \<Rightarrow> error + DesignSession" where
  "onUploadFileSelected zone asset now rnd s =
     (case zone of
        None \<Rightarrow> Inl PrintAreaNotReady
      | Some z \<Rightarrow>
          (case asset of
             None \<Rightarrow> Inl UploadFailed
           | Some url \<Rightarrow>
               (let ident = image_id now rnd
                in Inr (s\<lparr>objects := objects s @ [ImageObj (newImage z ident url)],
                          selectedId := Some ident\<rparr>))))"

text \<open>The object literal of lines 324-334.\<close>

definition newText :: "SafeZone \<Rightarrow> string \<Rightarrow> DesignTextItem" where
  "newText zone ident =
     \<lparr>txt_id = ident, txt_text = ''Your text'',
      txt_x = sz_x zone + sz_width zone / 2,
      txt_y = sz_y zone + sz_height zone / 2,
      txt_rotation = 0, txt_fontSize = 36,
      txt_fontFamily = ''Roboto'', txt_fill = ''#ffffff''\<rparr>"

text \<open>\<^verbatim>\<open>addText\<close> (lines 319-337).\<close>

definition addText :: "SafeZone option \<Rightarrow> nat \<Rightarrow> string \<Rightarrow> DesignSession \<Rightarrow> DesignSession" where
  "addText zone now rnd s =
     (case zone of
        None \<Rightarrow> s
      | Some z \<Rightarrow>
          (let ident = text_id now rnd
           in s\<lparr>objects := objects s @ [TextObj (newText z ident)],
                selectedId := Some ident\<rparr>))"

text \<open>
  \<^verbatim>\<open>!selectedId\<close>: true for \<^verbatim>\<open>null\<close> and for the empty string. \<open>truthyId\<close> gives the
  id when the test lets it through.
\<close>

definition truthyId :: "string option \<Rightarrow> string option" where
  "truthyId sel = (case sel of None \<Rightarrow> None | Some i \<Rightarrow> if i = [] then None else Some i)"

text \<open>\<^verbatim>\<open>centerHorizontally\<close> (lines 339-351).\<close>

definition centerHorizontally :: "SafeZone option \<Rightarrow> DesignSession \<Rightarrow> DesignSession" where
  "centerHorizontally zone s =
     (case (zone, truthyId (selectedId s)) of
        (Some z, Some sel) \<Rightarrow>
          s\<lparr>objects := map (\<lambda>it.
               if obj_id it \<noteq> sel then it
               else (case it of
                       ImageObj im \<Rightarrow>
                         ImageObj (im\<lparr>img_x := sz_x z + (sz_width z - img_width im) / 2\<rparr>)
                     | TextObj tx \<Rightarrow> TextObj (tx\<lparr>txt_x := sz_x z + sz_width z / 2\<rparr>)))
               (objects s)\<rparr>
      | _ \<Rightarrow> s)"

text \<open>\<^verbatim>\<open>centerVertically\<close> (lines 353-365).\<close>

definition centerVertically :: "SafeZone option \<Rightarrow> DesignSession \<Rightarrow> DesignSession" where
  "centerVertically zone s =
     (case (zone, truthyId (selectedId s)) of
        (Some z, Some sel) \<Rightarrow>
          s\<lparr>objects := map (\<lambda>it.
               if obj_id it \<noteq> sel then it
               else (case it of
                       ImageObj im \<Rightarrow>
                         ImageObj (im\<lparr>img_y := sz_y z + (sz_height z - img_height im) / 2\<rparr>)
                     | TextObj tx \<Rightarrow> TextObj (tx\<lparr>txt_y := sz_y z + sz_height z / 2\<rparr>)))
               (objects s)\<rparr>
      | _ \<Rightarrow> s)"

text \<open>\<^verbatim>\<open>deleteSelected\<close> (lines 367-371).\<close>

definition deleteSelected :: "DesignSession \<Rightarrow> DesignSession" where
  "deleteSelected s =
     (case truthyId (selectedId s) of
        None \<Rightarrow> s
      | Some sel \<Rightarrow>
          s\<lparr>objects := filter (\<lambda>it. obj_id it \<noteq> sel) (objects s), selectedId := None\<rparr>)"

text \<open>
  The patches \<^verbatim>\<open>updateSelectedText\<close> is called with (lines 792, 802, 814, 823), and
  the function itself (lines 378-387).
\<close>

datatype TextPatch =
  PatchText string | PatchFill string | PatchFontSize number | PatchFontFamily string

fun applyPatch :: "TextPatch \<Rightarrow> DesignTextItem \<Rightarrow> DesignTextItem" where
  "applyPatch (PatchText t) it = it\<lparr>txt_text := t\<rparr>"
| "applyPatch (PatchFill c) it = it\<lparr>txt_fill := c\<rparr>"
| "applyPatch (PatchFontSize n) it = it\<lparr>txt_fontSize := n\<rparr>"
| "applyPatch (PatchFontFamily f) it = it\<lparr>txt_fontFamily := f\<rparr>"

definition updateSelectedText :: "TextPatch \<Rightarrow> DesignSession \<Rightarrow> DesignSession" where
  "updateSelectedText patch s =
     (case truthyId (selectedId s) of
        None \<Rightarrow> s
      | Some sel \<Rightarrow>
          s\<lparr>objects := map (\<lambda>it.
               if obj_id it \<noteq> sel then it
               else (case it of
                       ImageObj im \<Rightarrow> it
                     | TextObj tx \<Rightarrow> TextObj (applyPatch patch tx)))
               (objects s)\<rparr>)"

text \<open>
  \<^verbatim>\<open>onChange\<close> as the page passes it to each rendered object (lines 682-686 and
  705-709): every entry with the id of \<open>item\<close> is replaced by \<open>next\<close>.
\<close>

definition onChange :: "DesignObject \<Rightarrow> DesignObject \<Rightarrow> DesignSession \<Rightarrow> DesignSession" where
  "onChange item next s =
     s\<lparr>objects := map (\<lambda>it. if obj_id it = obj_id item then next else it) (objects s)\<rparr>"

text \<open>
  A drag gesture on a rendered object: Konva moves the node to each pointer position in
  turn and calls \<^verbatim>\<open>onDragMove\<close> after each move; on release \<^verbatim>\<open>onDragEnd\<close>
  commits the node's position.
\<close>

definition dragNode ::
  "(KonvaNode \<Rightarrow> KonvaNode) \<Rightarrow> KonvaNode \<Rightarrow> (number \<times> number) list \<Rightarrow> KonvaNode" where
  "dragNode onDragMove node ps =
     foldl (\<lambda>n p. onDragMove (n\<lparr>node_x := fst p, node_y := snd p\<rparr>)) node ps"

definition dragObject ::
  "(DesignTextItem \<Rightarrow> number \<times> number) \<Rightarrow> SafeZone \<Rightarrow> DesignObject \<Rightarrow>
   (number \<times> number) list \<Rightarrow> DesignObject" where
  "dragObject metrics z item ps =
     (case item of
        ImageObj im \<Rightarrow>
          ImageObj (image_onDragEnd im (dragNode (image_onDragMove z) (image_node im) ps))
      | TextObj tx \<Rightarrow>
          TextObj (text_onDragEnd tx (dragNode (text_onDragMove z) (text_node metrics tx) ps)))"

text \<open>
  A resize or rotate gesture: the \<^verbatim>\<open>Transformer\<close> leaves the node with a position,
  scale factors and a rotation of its choosing, then \<^verbatim>\<open>onTransformEnd\<close> runs.
\<close>

record Transformed =
  tr_x :: number
  tr_y :: number
  tr_scaleX :: number
  tr_scaleY :: number
  tr_rotation :: number

definition transformNode :: "KonvaNode \<Rightarrow> Transformed \<Rightarrow> KonvaNode" where
  "transformNode node t =
     node\<lparr>node_x := tr_x t, node_y := tr_y t,
          node_scaleX := tr_scaleX t, node_scaleY := tr_scaleY t,
          node_rotation := tr_rotation t\<rparr>"

definition transformObject ::
  "(DesignTextItem \<Rightarrow> number \<times> number) \<Rightarrow> SafeZone \<Rightarrow> DesignObject \<Rightarrow> Transformed \<Rightarrow> DesignObject" where
  "transformObject metrics z item t =
     (case item of
        ImageObj im \<Rightarrow>
          ImageObj (snd (image_onTransformEnd z im (transformNode (image_node im) t)))
      | TextObj tx \<Rightarrow>
          TextObj (snd (text_onTransformEnd tx (transformNode (text_node metrics tx) t))))"

text \<open>
  What can happen to a session. Objects are rendered, and so can be clicked, dragged
  and transformed, only while the safe zone is present (line 673); they are addressed
  by their position in the list.
\<close>

datatype Event =
    UploadFile "string option" nat string
  | AddText nat string
  | ClickObject nat
  | ClickStage
  | DragObject nat "(number \<times> number) list"
  | TransformObject nat Transformed
  | CenterHorizontally
  | CenterVertically
  | DeleteSelected
  | UpdateSelectedText TextPatch

fun step ::
  "(DesignTextItem \<Rightarrow> number \<times> number) \<Rightarrow> SafeZone option \<Rightarrow> Event \<Rightarrow> DesignSession \<Rightarrow> DesignSession" where
  "step metrics zone (UploadFile asset now rnd) s =
     (case onUploadFileSelected zone asset now rnd s of Inl e \<Rightarrow> s | Inr s' \<Rightarrow> s')"
| "step metrics zone (AddText now rnd) s = addText zone now rnd s"
| "step metrics zone (ClickObject k) s =
     (case zone of
        None \<Rightarrow> s
      | Some z \<Rightarrow> if k < length (objects s) then s\<lparr>selectedId := Some (obj_id (objects s ! k))\<rparr> else s)"
| "step metrics zone ClickStage s = s\<lparr>selectedId := None\<rparr>"
| "step metrics zone (DragObject k ps) s =
     (case zone of
        None \<Rightarrow> s
      | Some z \<Rightarrow>
          if k < length (objects s)
          then onChange (objects s ! k) (dragObject metrics z (objects s ! k) ps) s
          else s)"
| "step metrics zone (TransformObject k t) s =
     (case zone of
        None \<Rightarrow> s
      | Some z \<Rightarrow>
          if k < length (objects s)
          then onChange (objects s ! k) (transformObject metrics z (objects s ! k) t) s
          else s)"
| "step metrics zone CenterHorizontally s = centerHorizontally zone s"
| "step metrics zone CenterVertically s = centerVertically zone s"
| "step metrics zone DeleteSelected s = deleteSelected s"
| "step metrics zone (UpdateSelectedText patch) s = updateSelectedText patch s"

text \<open>
  The session after a list of events, from the empty session of a fresh visit. Each
  event comes with the safe zone of the render in which it happens.
\<close>

definition run ::
  "(DesignTextItem \<Rightarrow> number \<times> number) \<Rightarrow> (SafeZone option \<times> Event) list \<Rightarrow> DesignSession" where
  "run metrics zes = foldl (\<lambda>s ze. step metrics (fst ze) (snd ze) s) emptySession zes"

text \<open>The ids of the session's objects, in z-order.\<close>

definition objectIds :: "DesignSession \<Rightarrow> string list" where
  "objectIds s = map obj_id (objects s)"



text \<open>
  The clock value and random digits that an event feeds into a new id, and those of a
  list of events.
\<close>

fun stamp :: "Event \<Rightarrow> (nat \<times> string) list" where
  "stamp (UploadFile asset now rnd) = [(now, rnd)]"
| "stamp (AddText now rnd) = [(now, rnd)]"
| "stamp e = []"

definition stamps :: "Event list \<Rightarrow> (nat \<times> string) list" where
  "stamps es = concat (map stamp es)"

text \<open>The ids that can be formed from a set of clock values and random digits.\<close>

definition stamped :: "(nat \<times> string) set \<Rightarrow> string set" where
  "stamped P = (\<lambda>p. image_id (fst p) (snd p)) ` P \<union> (\<lambda>p. text_id (fst p) (snd p)) ` P"

section \<open>Choosing the variant\<close>

record Product =
  product_id :: number
  product_name :: string
  variants :: "Variant list option"

text \<open>
  \<^verbatim>\<open>pickVariant\<close> (lines 119-124). \<^verbatim>\<open>!variantId\<close> holds for \<^verbatim>\<open>null\<close> and for
  the number zero.
\<close>

definition pickVariant :: "Product \<Rightarrow> number option \<Rightarrow> Variant option" where
  "pickVariant product variantId =
     (case (case variants product of None \<Rightarrow> [] | Some l \<Rightarrow> l) of
        [] \<Rightarrow> None
      | v0 # rest \<Rightarrow>
          (case variantId of
             None \<Rightarrow> Some v0
           | Some i \<Rightarrow>
               if i = 0 then Some v0
               else (case List.find (\<lambda>v. variant_id v = i) (v0 # rest) of
                       Some v \<Rightarrow> Some v
                     | None \<Rightarrow> Some v0)))"

section \<open>Adding to the cart\<close>

text \<open>
  \<^verbatim>\<open>doAddToCart\<close> (lines 404-456) is an asynchronous function: it runs up to an
  \<^verbatim>\<open>await\<close>, is suspended there, and is resumed when the awaited call settles. An
  invocation in flight is suspended at one of three places.
\<close>

datatype Await = AwaitExport | AwaitUpload | AwaitPost

text \<open>
  The state the function reads and writes, and a ledger of the calls it has issued.
  \<open>inFlight\<close> lists the invocations that are suspended, oldest first. Each invocation
  reads \<open>isAddingToCart\<close> as the latest render holds it: React renders again after the
  click that set the flag and before the next click is handled.
\<close>

record Checkout =
  authenticated :: bool
  productReady :: bool
  isAddingToCart :: bool
  inFlight :: "Await list"
  authModalOpened :: nat
  exports :: nat
  uploads :: nat
  cartAdds :: nat
  toasts :: "string list"

text \<open>The part of \<^verbatim>\<open>doAddToCart\<close> that runs at once, up to the first \<^verbatim>\<open>await\<close>.\<close>

definition doAddToCart :: "Checkout \<Rightarrow> Checkout" where
  "doAddToCart s =
     (if \<not> authenticated s then s\<lparr>authModalOpened := Suc (authModalOpened s)\<rparr>
      else if \<not> productReady s then s\<lparr>toasts := toasts s @ [''Product is not ready'']\<rparr>
      else if isAddingToCart s then s
      else s\<lparr>isAddingToCart := True,
             inFlight := inFlight s @ [AwaitExport],
             exports := Suc (exports s)\<rparr>)"

text \<open>
  The end of the invocation at position \<open>k\<close>: a toast, of success or from the
  \<^verbatim>\<open>catch\<close> block, and then the \<^verbatim>\<open>finally\<close> block.
\<close>

definition finish :: "nat \<Rightarrow> string \<Rightarrow> Checkout \<Rightarrow> Checkout" where
  "finish k msg s =
     s\<lparr>toasts := toasts s @ [msg],
       isAddingToCart := False,
       inFlight := take k (inFlight s) @ drop (Suc k) (inFlight s)\<rparr>"

text \<open>
  How an awaited call settles: fulfilled, or rejected with an error that may carry a
  message.
\<close>

datatype Outcome = Fulfilled | Rejected "string option"

text \<open>
  The text of the error toast (lines 451-452), \<^verbatim>\<open>e?.message || 'Failed to add to cart'\<close>:
  the error's message unless it is missing or empty.
\<close>

definition failureToast :: "string option \<Rightarrow> string" where
  "failureToast message =
     (case message of
        None \<Rightarrow> ''Failed to add to cart''
      | Some m \<Rightarrow> if m = [] then ''Failed to add to cart'' else m)"

text \<open>
  The awaited call of the invocation at position \<open>k\<close> settles, and the invocation
  runs on to its next \<^verbatim>\<open>await\<close> or to its end.
\<close>

definition settle :: "nat \<Rightarrow> Outcome \<Rightarrow> Checkout \<Rightarrow> Checkout" where
  "settle k outcome s =
     (if k < length (inFlight s) then
        (case outcome of
           Rejected message \<Rightarrow> finish k (failureToast message) s
         | Fulfilled \<Rightarrow>
             (case inFlight s ! k of
                AwaitExport \<Rightarrow>
                  s\<lparr>inFlight := (inFlight s)[k := AwaitUpload], uploads := Suc (uploads s)\<rparr>
              | AwaitUpload \<Rightarrow>
                  s\<lparr>inFlight := (inFlight s)[k := AwaitPost], cartAdds := Suc (cartAdds s)\<rparr>
              | AwaitPost \<Rightarrow> finish k ''Added to cart'' s))
      else s)"

datatype CartEvent = Trigger | Settle nat Outcome

fun cartStep :: "CartEvent \<Rightarrow> Checkout \<Rightarrow> Checkout" where
  "cartStep Trigger s = doAddToCart s"
| "cartStep (Settle k outcome) s = settle k outcome s"

definition cartRun :: "CartEvent list \<Rightarrow> Checkout \<Rightarrow> Checkout" where
  "cartRun es s = foldl (\<lambda>t e. cartStep e t) s es"

text \<open>A signed-in user on a loaded product with no invocation in flight.\<close>

definition cartIdle :: "Checkout \<Rightarrow> bool" where
  "cartIdle s \<longleftrightarrow> authenticated s \<and> productReady s \<and> \<not> isAddingToCart s \<and> inFlight s = []"

text \<open>
  The flag is set exactly while an invocation is in flight, and at most one is.
\<close>

definition cartGuard :: "Checkout \<Rightarrow> bool" where
  "cartGuard s \<longleftrightarrow> (isAddingToCart s \<longleftrightarrow> inFlight s \<noteq> []) \<and> length (inFlight s) \<le> 1"

section \<open>Scenario data\<close>

text \<open>
  Inputs at which the theorems below evaluate the handlers: the safe zone of the
  specification's drag scenario, a 240 x 240 image in it with a chosen rotation, the default
  text, two texts added one after the other, the same with the first text clicked
  afterwards, and a signed-in user on a loaded product
  with nothing in flight.
\<close>

definition scenarioZone :: SafeZone where
  "scenarioZone = \<lparr>sz_x = 52, sz_y = 137, sz_width = 416, sz_height = 416\<rparr>"

definition scenarioImage :: "number \<Rightarrow> DesignImageItem" where
  "scenarioImage rotation =
     \<lparr>img_id = ''img_1_a'', img_url = ''u'', img_x = 100, img_y = 200,
      img_width = 240, img_height = 240, img_rotation = rotation\<rparr>"

definition scenarioText :: DesignTextItem where
  "scenarioText = newText scenarioZone ''txt_1_a''"

definition twoTexts :: "string \<Rightarrow> (SafeZone option \<times> Event) list" where
  "twoTexts rnd = [(Some scenarioZone, AddText 7 ''a''), (Some scenarioZone, AddText 8 rnd)]"


definition signedInCheckout :: Checkout where
  "signedInCheckout =
     \<lparr>authenticated = True, productReady = True, isAddingToCart = False, inFlight = [],
      authModalOpened = 0, exports = 0, uploads = 0, cartAdds = 0, toasts = []\<rparr>"

section \<open>Background placement\<close>

lemma bgDraw_Some:
  "bgDraw (Some img) =
     Some \<lparr>bg_x = (520 - image_width img * min (520 / image_width img) (680 / image_height img)) / 2,
           bg_y = (680 - image_height img * min (520 / image_width img) (680 / image_height img)) / 2,
           bg_width = image_width img * min (520 / image_width img) (680 / image_height img),
           bg_height = image_height img * min (520 / image_width img) (680 / image_height img),
           bg_scale = min (520 / image_width img) (680 / image_height img)\<rparr>"
  by (simp add: bgDraw_def DESIGN_W_def DESIGN_H_def Let_def)

lemma fit_width_le:
  fixes w h :: real
  assumes "0 < w" "0 < h"
  shows "w * min (520 / w) (680 / h) \<le> 520"
proof -
  have "w * min (520 / w) (680 / h) \<le> w * (520 / w)"
    using assms by (intro mult_left_mono) simp_all
  also have "\<dots> = 520" using assms by simp
  finally show ?thesis .
qed

lemma fit_height_le:
  fixes w h :: real
  assumes "0 < w" "0 < h"
  shows "h * min (520 / w) (680 / h) \<le> 680"
proof -
  have "h * min (520 / w) (680 / h) \<le> h * (680 / h)"
    using assms by (intro mult_left_mono) simp_all
  also have "\<dots> = 680" using assms by simp
  finally show ?thesis .
qed

lemma fit_touches:
  fixes w h :: real
  assumes "0 < w" "0 < h"
  shows "w * min (520 / w) (680 / h) = 520 \<or> h * min (520 / w) (680 / h) = 680"
proof (cases "520 / w \<le> 680 / h")
  case True
  then have "min (520 / w) (680 / h) = 520 / w" by simp
  then show ?thesis using assms by simp
next
  case False
  then have "min (520 / w) (680 / h) = 680 / h" by simp
  then show ?thesis using assms by simp
qed

text \<open>
  C2 (as the code has it). A 1000 x 1000 mockup in the 520 x 680 canvas is drawn at
  width = height = 520, x = 0 and y = (680 - 520) / 2 = 80, with scale 0.52. In general,
  for an image of positive size, scale = min (520 / w) (680 / h), the drawn size is the
  image size times the scale, the drawn rectangle is centred in the canvas, lies inside
  it, and touches it in at least one direction.
\<close>

theorem bgDraw_fit:
  "bgDraw (Some \<lparr>image_width = 1000, image_height = 1000\<rparr>) =
     Some \<lparr>bg_x = 0, bg_y = 80, bg_width = 520, bg_height = 520, bg_scale = 52 / 100\<rparr>
   \<and> (0 < image_width img \<and> 0 < image_height img \<longrightarrow>
        (\<exists>d. bgDraw (Some img) = Some d
           \<and> bg_scale d = min (DESIGN_W / image_width img) (DESIGN_H / image_height img)
           \<and> bg_width d = image_width img * bg_scale d
           \<and> bg_height d = image_height img * bg_scale d
           \<and> bg_x d + bg_width d / 2 = DESIGN_W / 2
           \<and> bg_y d + bg_height d / 2 = DESIGN_H / 2
           \<and> 0 \<le> bg_x d \<and> 0 \<le> bg_y d
           \<and> bg_x d + bg_width d \<le> DESIGN_W \<and> bg_y d + bg_height d \<le> DESIGN_H
           \<and> (bg_width d = DESIGN_W \<or> bg_height d = DESIGN_H)))"
proof (intro conjI impI)
  show "bgDraw (Some \<lparr>image_width = 1000, image_height = 1000\<rparr>) =
     Some \<lparr>bg_x = 0, bg_y = 80, bg_width = 520, bg_height = 520, bg_scale = 52 / 100\<rparr>"
    by (simp add: bgDraw_Some)
next
  assume pos: "0 < image_width img \<and> 0 < image_height img"
  let ?w = "image_width img" and ?h = "image_height img"
  let ?s = "min (520 / ?w) (680 / ?h)"
  from pos have w: "?w * ?s \<le> 520" and h: "?h * ?s \<le> 680"
    by (simp_all add: fit_width_le fit_height_le)
  from pos have t: "?w * ?s = 520 \<or> ?h * ?s = 680"
    by (simp add: fit_touches)
  show "\<exists>d. bgDraw (Some img) = Some d
           \<and> bg_scale d = min (DESIGN_W / image_width img) (DESIGN_H / image_height img)
           \<and> bg_width d = image_width img * bg_scale d
           \<and> bg_height d = image_height img * bg_scale d
           \<and> bg_x d + bg_width d / 2 = DESIGN_W / 2
           \<and> bg_y d + bg_height d / 2 = DESIGN_H / 2
           \<and> 0 \<le> bg_x d \<and> 0 \<le> bg_y d
           \<and> bg_x d + bg_width d \<le> DESIGN_W \<and> bg_y d + bg_height d \<le> DESIGN_H
           \<and> (bg_width d = DESIGN_W \<or> bg_height d = DESIGN_H)"
    unfolding bgDraw_Some DESIGN_W_def DESIGN_H_def
    using w h t by (auto simp: field_simps)
qed

theorem bgDraw_fit_witness:
  "(0::real) < 800 \<and> (0::real) < 1200
   \<and> bgDraw (Some \<lparr>image_width = 800, image_height = 1200\<rparr>) =
       Some \<lparr>bg_x = 100 / 3, bg_y = 0, bg_width = 1360 / 3, bg_height = 680, bg_scale = 17 / 30\<rparr>
   \<and> bgDraw (Some \<lparr>image_width = 1000, image_height = 1000\<rparr>) =
       Some \<lparr>bg_x = 0, bg_y = 80, bg_width = 520, bg_height = 520, bg_scale = 52 / 100\<rparr>"
  using bgDraw_fit [of "\<lparr>image_width = 800, image_height = 1200\<rparr>"]
  by (simp add: bgDraw_Some)

theorem bgDraw_y_counterexample:
  "map_option bg_y (bgDraw (Some \<lparr>image_width = 1000, image_height = 1000\<rparr>)) \<noteq> Some 85"
  by (simp add: bgDraw_Some)

section \<open>Safe zone\<close>

lemma pageSafeZone_Some:
  "pageSafeZone (Some v) (Some img) =
     Some \<lparr>sz_x = (520 - image_width img * min (520 / image_width img) (680 / image_height img)) / 2
                   + printAreaLeft v * (image_width img * min (520 / image_width img) (680 / image_height img) / image_width img),
           sz_y = (680 - image_height img * min (520 / image_width img) (680 / image_height img)) / 2
                   + printAreaTop v * (image_height img * min (520 / image_width img) (680 / image_height img) / image_height img),
           sz_width = printAreaWidth v * (image_width img * min (520 / image_width img) (680 / image_height img) / image_width img),
           sz_height = printAreaHeight v * (image_height img * min (520 / image_width img) (680 / image_height img) / image_height img)\<rparr>"
  by (simp add: pageSafeZone_def safeZone_def bgDraw_Some Let_def)

text \<open>
  C3 (as the code has it). The print area (left 100, top 100, 800 x 800) of a
  1000 x 1000 mockup, mapped through the placement of that mockup in the canvas, is the
  safe zone x = 52, y = 80 + 100 * 0.52 = 132, width = height = 416. In general, for an
  image whose width and height are not zero, the safe zone is the print area scaled by
  sx = drawn width / image width and sy = drawn height / image height and moved by the
  placement's corner; there is no safe zone while the variant, the placement or the
  image is missing.
\<close>

theorem safeZone_maps_print_area:
  "pageSafeZone
     (Some \<lparr>variant_id = vid, price = p, frontImage = f,
            printAreaTop = 100, printAreaLeft = 100,
            printAreaWidth = 800, printAreaHeight = 800\<rparr>)
     (Some \<lparr>image_width = 1000, image_height = 1000\<rparr>)
     = Some \<lparr>sz_x = 52, sz_y = 132, sz_width = 416, sz_height = 416\<rparr>
   \<and> (image_width img \<noteq> 0 \<and> image_height img \<noteq> 0 \<longrightarrow>
        safeZone (Some v) (Some d) (Some img) =
          Some \<lparr>sz_x = bg_x d + printAreaLeft v * (bg_width d / image_width img),
                sz_y = bg_y d + printAreaTop v * (bg_height d / image_height img),
                sz_width = printAreaWidth v * (bg_width d / image_width img),
                sz_height = printAreaHeight v * (bg_height d / image_height img)\<rparr>)
   \<and> safeZone None bd bi = None
   \<and> safeZone bv None bi = None
   \<and> safeZone bv bd None = None"
proof (intro conjI impI)
  show "pageSafeZone
     (Some \<lparr>variant_id = vid, price = p, frontImage = f,
            printAreaTop = 100, printAreaLeft = 100,
            printAreaWidth = 800, printAreaHeight = 800\<rparr>)
     (Some \<lparr>image_width = 1000, image_height = 1000\<rparr>)
     = Some \<lparr>sz_x = 52, sz_y = 132, sz_width = 416, sz_height = 416\<rparr>"
    by (simp add: pageSafeZone_Some)
  show "safeZone (Some v) (Some d) (Some img) =
       Some \<lparr>sz_x = bg_x d + printAreaLeft v * (bg_width d / image_width img),
             sz_y = bg_y d + printAreaTop v * (bg_height d / image_height img),
             sz_width = printAreaWidth v * (bg_width d / image_width img),
             sz_height = printAreaHeight v * (bg_height d / image_height img)\<rparr>"
    by (simp add: safeZone_def Let_def)
  show "safeZone None bd bi = None"
    by (simp add: safeZone_def)
  show "safeZone bv None bi = None"
    by (simp add: safeZone_def split: option.splits)
  show "safeZone bv bd None = None"
    by (simp add: safeZone_def split: option.splits)
qed

theorem safeZone_maps_print_area_witness:
  "image_width \<lparr>image_width = 1000, image_height = 1000\<rparr> \<noteq> 0
   \<and> image_height \<lparr>image_width = 1000, image_height = 1000\<rparr> \<noteq> 0
   \<and> safeZone
        (Some \<lparr>variant_id = 1, price = 0, frontImage = [],
               printAreaTop = 100, printAreaLeft = 100,
               printAreaWidth = 800, printAreaHeight = 800\<rparr>)
        (Some \<lparr>bg_x = 0, bg_y = 80, bg_width = 520, bg_height = 520, bg_scale = 52 / 100\<rparr>)
        (Some \<lparr>image_width = 1000, image_height = 1000\<rparr>)
      = Some \<lparr>sz_x = 52, sz_y = 132, sz_width = 416, sz_height = 416\<rparr>"
  using safeZone_maps_print_area
    [where v = "\<lparr>variant_id = 1, price = 0, frontImage = [],
               printAreaTop = 100, printAreaLeft = 100,
               printAreaWidth = 800, printAreaHeight = 800\<rparr>"
       and d = "\<lparr>bg_x = 0, bg_y = 80, bg_width = 520, bg_height = 520, bg_scale = 52 / 100\<rparr>"
       and img = "\<lparr>image_width = 1000, image_height = 1000\<rparr>"]
  by simp

theorem safeZone_y_counterexample:
  "map_option sz_y
     (pageSafeZone
        (Some \<lparr>variant_id = 1, price = 0, frontImage = [],
               printAreaTop = 100, printAreaLeft = 100,
               printAreaWidth = 800, printAreaHeight = 800\<rparr>)
        (Some \<lparr>image_width = 1000, image_height = 1000\<rparr>)) = Some 132
   \<and> map_option sz_y
       (pageSafeZone
          (Some \<lparr>variant_id = 1, price = 0, frontImage = [],
                 printAreaTop = 100, printAreaLeft = 100,
                 printAreaWidth = 800, printAreaHeight = 800\<rparr>)
          (Some \<lparr>image_width = 1000, image_height = 1000\<rparr>)) \<noteq> Some 137"
  by (simp add: pageSafeZone_Some)

section \<open>Objects that are not rotated\<close>

lemma place_unrotated: "place x y 0 p = (x + fst p, y + snd p)"
  by (simp add: place_def)

lemma drawn_unrotated:
  "0 \<le> w \<Longrightarrow> 0 \<le> h \<Longrightarrow>
   drawn_in_zone z x y 0 0 w h 0 \<longleftrightarrow> rect_in_zone z x y w h"
  by (auto simp add: drawn_in_zone_def point_in_zone_def place_unrotated rect_in_zone_def)

lemma image_in_zone_unrotated:
  "img_rotation item = 0 \<Longrightarrow> 0 \<le> img_width item \<Longrightarrow> 0 \<le> img_height item \<Longrightarrow>
   image_in_zone z item \<longleftrightarrow>
     rect_in_zone z (img_x item) (img_y item) (img_width item) (img_height item)"
  by (simp add: image_in_zone_def drawn_unrotated)

section \<open>Dragging\<close>

lemma image_onDragMove_fields:
  "node_x (image_onDragMove z node) =
     clamp (node_x node) (sz_x z) (sz_x z + sz_width z - node_width node)"
  "node_y (image_onDragMove z node) =
     clamp (node_y node) (sz_y z) (sz_y z + sz_height z - node_height node)"
  "node_width (image_onDragMove z node) = node_width node"
  "node_height (image_onDragMove z node) = node_height node"
  "node_rotation (image_onDragMove z node) = node_rotation node"
  by (simp_all add: image_onDragMove_def Let_def)

lemma clamp_inverted:
  "hi < lo \<Longrightarrow> clamp v lo hi = lo"
  by (simp add: clamp_def)

text \<open>
  C4 (as the code has it). Each move event of an image drag sets the node's position to
  clamp (x, zone.x, zone.x + zone.width - w) and clamp (y, zone.y, zone.y + zone.height - h),
  where the lower bound wins when the node is larger than the zone, and leaves the size
  as it is; the handler of a text node computes the same. The handler does not read the
  rotation: what it places is the w x h rectangle
  with its top-left corner at the node's position and its sides along the axes, and that
  rectangle lies within the safe zone exactly when w and h do not exceed the zone's
  width and height; a wider node is pinned to the zone's left edge and a taller one to
  its top edge. For an image that is not rotated (and of non-negative size) this
  rectangle is the image as it is drawn, so the drawn image then lies within the safe
  zone exactly when it fits. The 240 x 240 image dragged to (-50, -50) in the zone
  (52, 137, 416, 416) ends at (52, 137).
\<close>

theorem image_onDragMove_clamps:
  "node_x (image_onDragMove z node) =
     clamp (node_x node) (sz_x z) (sz_x z + sz_width z - node_width node)
   \<and> node_y (image_onDragMove z node) =
     clamp (node_y node) (sz_y z) (sz_y z + sz_height z - node_height node)
   \<and> node_width (image_onDragMove z node) = node_width node
   \<and> node_height (image_onDragMove z node) = node_height node
   \<and> node_rotation (image_onDragMove z node) = node_rotation node
   \<and> text_onDragMove z node = image_onDragMove z node
   \<and> (rect_in_zone z (node_x (image_onDragMove z node)) (node_y (image_onDragMove z node))
         (node_width node) (node_height node)
        \<longleftrightarrow> node_width node \<le> sz_width z \<and> node_height node \<le> sz_height z)
   \<and> (node_rotation node = 0 \<and> 0 \<le> node_width node \<and> 0 \<le> node_height node \<longrightarrow>
        (drawn_in_zone z (node_x (image_onDragMove z node)) (node_y (image_onDragMove z node))
           0 0 (node_width (image_onDragMove z node)) (node_height (image_onDragMove z node))
           (node_rotation (image_onDragMove z node))
         \<longleftrightarrow> node_width node \<le> sz_width z \<and> node_height node \<le> sz_height z))
   \<and> (sz_width z < node_width node \<longrightarrow> node_x (image_onDragMove z node) = sz_x z)
   \<and> (sz_height z < node_height node \<longrightarrow> node_y (image_onDragMove z node) = sz_y z)
   \<and> image_onDragMove \<lparr>sz_x = 52, sz_y = 137, sz_width = 416, sz_height = 416\<rparr>
        \<lparr>node_x = - 50, node_y = - 50, node_width = 240, node_height = 240,
         node_scaleX = 1, node_scaleY = 1, node_rotation = 0\<rparr>
      = \<lparr>node_x = 52, node_y = 137, node_width = 240, node_height = 240,
         node_scaleX = 1, node_scaleY = 1, node_rotation = 0\<rparr>"
proof (intro conjI impI)
  show r: "rect_in_zone z (node_x (image_onDragMove z node)) (node_y (image_onDragMove z node))
         (node_width node) (node_height node)
        \<longleftrightarrow> node_width node \<le> sz_width z \<and> node_height node \<le> sz_height z"
    by (auto simp add: image_onDragMove_fields clamp_def rect_in_zone_def)
  show "drawn_in_zone z (node_x (image_onDragMove z node)) (node_y (image_onDragMove z node))
           0 0 (node_width (image_onDragMove z node)) (node_height (image_onDragMove z node))
           (node_rotation (image_onDragMove z node))
         \<longleftrightarrow> node_width node \<le> sz_width z \<and> node_height node \<le> sz_height z"
    if "node_rotation node = 0 \<and> 0 \<le> node_width node \<and> 0 \<le> node_height node"
    using that r by (simp add: image_onDragMove_fields(3,4,5) drawn_unrotated)
  show "node_x (image_onDragMove z node) = sz_x z" if "sz_width z < node_width node"
    using that by (simp add: image_onDragMove_fields clamp_inverted)
  show "node_y (image_onDragMove z node) = sz_y z" if "sz_height z < node_height node"
    using that by (simp add: image_onDragMove_fields clamp_inverted)
  show "image_onDragMove \<lparr>sz_x = 52, sz_y = 137, sz_width = 416, sz_height = 416\<rparr>
        \<lparr>node_x = - 50, node_y = - 50, node_width = 240, node_height = 240,
         node_scaleX = 1, node_scaleY = 1, node_rotation = 0\<rparr>
      = \<lparr>node_x = 52, node_y = 137, node_width = 240, node_height = 240,
         node_scaleX = 1, node_scaleY = 1, node_rotation = 0\<rparr>"
    by (simp add: image_onDragMove_def clamp_def Let_def)
qed (simp_all add: image_onDragMove_fields text_onDragMove_def image_onDragMove_def)

theorem image_onDragMove_clamps_witness:
  "node_rotation (image_node (scenarioImage 0)) = 0
   \<and> 0 \<le> node_width (image_node (scenarioImage 0))
   \<and> 0 \<le> node_height (image_node (scenarioImage 0))
   \<and> node_width (image_node (scenarioImage 0)) \<le> sz_width scenarioZone
   \<and> node_height (image_node (scenarioImage 0)) \<le> sz_height scenarioZone
   \<and> image_onDragMove scenarioZone ((image_node (scenarioImage 0))\<lparr>node_x := 400, node_y := 0\<rparr>)
       = (image_node (scenarioImage 0))\<lparr>node_x := 228, node_y := 137\<rparr>
   \<and> drawn_in_zone scenarioZone 228 137 0 0 240 240 0
   \<and> sz_width \<lparr>sz_x = 52, sz_y = 137, sz_width = 416, sz_height = 100\<rparr>
       < node_width \<lparr>node_x = 10, node_y = 140, node_width = 500, node_height = 240,
                     node_scaleX = 1, node_scaleY = 1, node_rotation = 0\<rparr>
   \<and> sz_height \<lparr>sz_x = 52, sz_y = 137, sz_width = 416, sz_height = 100\<rparr>
       < node_height \<lparr>node_x = 10, node_y = 140, node_width = 500, node_height = 240,
                      node_scaleX = 1, node_scaleY = 1, node_rotation = 0\<rparr>
   \<and> node_x (image_onDragMove \<lparr>sz_x = 52, sz_y = 137, sz_width = 416, sz_height = 100\<rparr>
        \<lparr>node_x = 10, node_y = 140, node_width = 500, node_height = 240,
         node_scaleX = 1, node_scaleY = 1, node_rotation = 0\<rparr>) = 52
   \<and> node_y (image_onDragMove \<lparr>sz_x = 52, sz_y = 137, sz_width = 416, sz_height = 100\<rparr>
        \<lparr>node_x = 10, node_y = 140, node_width = 500, node_height = 240,
         node_scaleX = 1, node_scaleY = 1, node_rotation = 0\<rparr>) = 137"
  using image_onDragMove_clamps
    [of scenarioZone "(image_node (scenarioImage 0))\<lparr>node_x := 400, node_y := 0\<rparr>"]
    image_onDragMove_clamps
    [of "\<lparr>sz_x = 52, sz_y = 137, sz_width = 416, sz_height = 100\<rparr>"
        "\<lparr>node_x = 10, node_y = 140, node_width = 500, node_height = 240,
          node_scaleX = 1, node_scaleY = 1, node_rotation = 0\<rparr>"]
  by (simp add: scenarioZone_def scenarioImage_def image_node_def image_onDragMove_def
      clamp_def Let_def)

text \<open>
  A move event that leaves the image outside the safe zone: the 240 x 240 image, not
  rotated, in a zone that is only 100 high.
\<close>

theorem image_onDragMove_counterexample:
  "\<not> rect_in_zone \<lparr>sz_x = 52, sz_y = 137, sz_width = 416, sz_height = 100\<rparr>
       (node_x (image_onDragMove \<lparr>sz_x = 52, sz_y = 137, sz_width = 416, sz_height = 100\<rparr>
          \<lparr>node_x = 60, node_y = 140, node_width = 240, node_height = 240,
           node_scaleX = 1, node_scaleY = 1, node_rotation = 0\<rparr>))
       (node_y (image_onDragMove \<lparr>sz_x = 52, sz_y = 137, sz_width = 416, sz_height = 100\<rparr>
          \<lparr>node_x = 60, node_y = 140, node_width = 240, node_height = 240,
           node_scaleX = 1, node_scaleY = 1, node_rotation = 0\<rparr>))
       240 240
   \<and> \<not> drawn_in_zone \<lparr>sz_x = 52, sz_y = 137, sz_width = 416, sz_height = 100\<rparr>
       (node_x (image_onDragMove \<lparr>sz_x = 52, sz_y = 137, sz_width = 416, sz_height = 100\<rparr>
          \<lparr>node_x = 60, node_y = 140, node_width = 240, node_height = 240,
           node_scaleX = 1, node_scaleY = 1, node_rotation = 0\<rparr>))
       (node_y (image_onDragMove \<lparr>sz_x = 52, sz_y = 137, sz_width = 416, sz_height = 100\<rparr>
          \<lparr>node_x = 60, node_y = 140, node_width = 240, node_height = 240,
           node_scaleX = 1, node_scaleY = 1, node_rotation = 0\<rparr>))
       0 0 240 240 0"
  by (simp add: image_onDragMove_fields clamp_def rect_in_zone_def
      drawn_in_zone_def point_in_zone_def place_unrotated)

section \<open>Resizing text\<close>

text \<open>
  C5. When a text resize completes, the font size passed to \<^verbatim>\<open>onChange\<close> is
  clamp (fontSize * scaleX, 12, 100), and the handler leaves the node with both scale
  factors set to 1. Resizing from font size 36 with scaleX = 4 commits 100.
\<close>

theorem text_onTransformEnd_fontSize:
  "txt_fontSize (snd (text_onTransformEnd item node)) =
     clamp (txt_fontSize item * node_scaleX node) 12 100
   \<and> node_scaleX (fst (text_onTransformEnd item node)) = 1
   \<and> node_scaleY (fst (text_onTransformEnd item node)) = 1
   \<and> txt_fontSize (snd (text_onTransformEnd (item\<lparr>txt_fontSize := 36\<rparr>)
                            (node\<lparr>node_scaleX := 4\<rparr>))) = 100"
  by (simp add: text_onTransformEnd_def clamp_def Let_def)

section \<open>Uploading an image\<close>

lemma newImage_fields:
  "img_id (newImage z i u) = i"
  "img_url (newImage z i u) = u"
  "img_width (newImage z i u) = min 240 (sz_width z)"
  "img_height (newImage z i u) = min 240 (sz_width z)"
  "img_x (newImage z i u) = sz_x z + (sz_width z - min 240 (sz_width z)) / 2"
  "img_y (newImage z i u) = sz_y z + (sz_height z - min 240 (sz_width z)) / 2"
  "img_rotation (newImage z i u) = 0"
  by (simp_all add: newImage_def Let_def)

text \<open>
  C9. A successful upload appends an image whose width and height are both
  min (240, zone.width), whatever the zone's height, and whose centre is the centre of
  the safe zone. Its box lies within the safe zone if and only if
  zone.height \<ge> min (240, zone.width); for a zone of non-negative width the same holds
  of the rectangle as it is drawn.
\<close>

theorem upload_image_placement:
  "onUploadFileSelected (Some z) (Some url) now rnd s =
     Inr (s\<lparr>objects := objects s @ [ImageObj (newImage z (image_id now rnd) url)],
            selectedId := Some (image_id now rnd)\<rparr>)
   \<and> img_width (newImage z i url) = min 240 (sz_width z)
   \<and> img_height (newImage z i url) = min 240 (sz_width z)
   \<and> img_x (newImage z i url) + img_width (newImage z i url) / 2 = sz_x z + sz_width z / 2
   \<and> img_y (newImage z i url) + img_height (newImage z i url) / 2 = sz_y z + sz_height z / 2
   \<and> (rect_in_zone z (img_x (newImage z i url)) (img_y (newImage z i url))
          (img_width (newImage z i url)) (img_height (newImage z i url))
        \<longleftrightarrow> min 240 (sz_width z) \<le> sz_height z)
   \<and> (0 \<le> sz_width z \<longrightarrow>
        (image_in_zone z (newImage z i url) \<longleftrightarrow> min 240 (sz_width z) \<le> sz_height z))"
proof (intro conjI impI)
  show "onUploadFileSelected (Some z) (Some url) now rnd s =
     Inr (s\<lparr>objects := objects s @ [ImageObj (newImage z (image_id now rnd) url)],
            selectedId := Some (image_id now rnd)\<rparr>)"
    by (simp add: onUploadFileSelected_def Let_def)
  show r: "rect_in_zone z (img_x (newImage z i url)) (img_y (newImage z i url))
          (img_width (newImage z i url)) (img_height (newImage z i url))
        \<longleftrightarrow> min 240 (sz_width z) \<le> sz_height z"
    by (auto simp add: newImage_fields rect_in_zone_def min_def field_simps)
  show "image_in_zone z (newImage z i url) \<longleftrightarrow> min 240 (sz_width z) \<le> sz_height z"
    if "0 \<le> sz_width z"
  proof -
    have "0 \<le> img_width (newImage z i url)" "0 \<le> img_height (newImage z i url)"
      using that by (simp_all add: newImage_fields)
    then show ?thesis
      using r by (simp add: image_in_zone_unrotated newImage_fields(7))
  qed
qed (simp_all add: newImage_fields field_simps)

theorem upload_image_placement_witness:
  "0 \<le> sz_width \<lparr>sz_x = 52, sz_y = 137, sz_width = 416, sz_height = 416\<rparr>
   \<and> image_in_zone \<lparr>sz_x = 52, sz_y = 137, sz_width = 416, sz_height = 416\<rparr>
       (newImage \<lparr>sz_x = 52, sz_y = 137, sz_width = 416, sz_height = 416\<rparr> ''img_1_a'' ''u'')
   \<and> min 240 (sz_width \<lparr>sz_x = 52, sz_y = 137, sz_width = 416, sz_height = 416\<rparr>)
       \<le> sz_height \<lparr>sz_x = 52, sz_y = 137, sz_width = 416, sz_height = 416\<rparr>"
  using upload_image_placement
    [of "\<lparr>sz_x = 52, sz_y = 137, sz_width = 416, sz_height = 416\<rparr>" "''u''" _ _ _ "''img_1_a''"]
  by simp

section \<open>The variant that is picked\<close>

lemma pickVariant_Cons:
  "variants p = Some (v0 # vs) \<Longrightarrow>
   pickVariant p vid =
     (case vid of
        None \<Rightarrow> Some v0
      | Some i \<Rightarrow>
          if i = 0 then Some v0
          else (case List.find (\<lambda>v. variant_id v = i) (v0 # vs) of
                  Some v \<Rightarrow> Some v
                | None \<Rightarrow> Some v0))"
  by (simp add: pickVariant_def)

text \<open>
  C10 (as the code has it). \<^verbatim>\<open>pickVariant\<close> returns none if and only if the product
  has no variants (the list is missing or empty). With variants present it returns the
  first one when no id is requested, when the requested id is 0 (which \<^verbatim>\<open>!variantId\<close>
  treats as not given), and when no variant has the requested id; for a requested id
  other than 0 that some variant has, it returns the first variant with that id.
\<close>

theorem pickVariant_cases:
  "(pickVariant p vid = None \<longleftrightarrow> variants p = None \<or> variants p = Some [])
   \<and> (variants p = Some (v0 # vs) \<longrightarrow>
        pickVariant p None = Some v0
      \<and> pickVariant p (Some 0) = Some v0
      \<and> (i \<noteq> 0 \<and> (\<forall>v \<in> set (v0 # vs). variant_id v \<noteq> i) \<longrightarrow> pickVariant p (Some i) = Some v0)
      \<and> (i \<noteq> 0 \<and> (\<exists>v \<in> set (v0 # vs). variant_id v = i) \<longrightarrow>
            (\<exists>v. pickVariant p (Some i) = Some v \<and> v \<in> set (v0 # vs) \<and> variant_id v = i
                 \<and> List.find (\<lambda>v. variant_id v = i) (v0 # vs) = Some v)))"
proof (intro conjI impI)
  show "pickVariant p vid = None \<longleftrightarrow> variants p = None \<or> variants p = Some []"
    by (auto simp add: pickVariant_def split: option.splits list.splits)
next
  assume v: "variants p = Some (v0 # vs)"
  show "pickVariant p None = Some v0" "pickVariant p (Some 0) = Some v0"
    using v by (simp_all add: pickVariant_Cons)
next
  assume v: "variants p = Some (v0 # vs)"
    and a: "i \<noteq> 0 \<and> (\<forall>v \<in> set (v0 # vs). variant_id v \<noteq> i)"
  from a have "List.find (\<lambda>v. variant_id v = i) (v0 # vs) = None"
    unfolding find_None_iff by blast
  with v a show "pickVariant p (Some i) = Some v0"
    by (simp add: pickVariant_Cons del: find.simps)
next
  assume v: "variants p = Some (v0 # vs)"
    and a: "i \<noteq> 0 \<and> (\<exists>v \<in> set (v0 # vs). variant_id v = i)"
  from a obtain w where w: "List.find (\<lambda>v. variant_id v = i) (v0 # vs) = Some w"
    by (cases "List.find (\<lambda>v. variant_id v = i) (v0 # vs)") (auto simp: find_None_iff simp del: find.simps)
  then have "w \<in> set (v0 # vs) \<and> variant_id w = i"
    unfolding find_Some_iff by (metis nth_mem)
  with v a w show "\<exists>v. pickVariant p (Some i) = Some v \<and> v \<in> set (v0 # vs) \<and> variant_id v = i
                 \<and> List.find (\<lambda>v. variant_id v = i) (v0 # vs) = Some v"
    by (simp add: pickVariant_Cons del: find.simps)
qed

theorem pickVariant_cases_witness:
  "variants \<lparr>product_id = 1, product_name = ''p'', variants = Some
       [\<lparr>variant_id = 1, price = 10, frontImage = ''a'', printAreaTop = 0, printAreaLeft = 0,
          printAreaWidth = 1, printAreaHeight = 1\<rparr>,
        \<lparr>variant_id = 2, price = 20, frontImage = ''b'', printAreaTop = 0, printAreaLeft = 0,
          printAreaWidth = 1, printAreaHeight = 1\<rparr>]\<rparr>
     = Some
       [\<lparr>variant_id = 1, price = 10, frontImage = ''a'', printAreaTop = 0, printAreaLeft = 0,
          printAreaWidth = 1, printAreaHeight = 1\<rparr>,
        \<lparr>variant_id = 2, price = 20, frontImage = ''b'', printAreaTop = 0, printAreaLeft = 0,
          printAreaWidth = 1, printAreaHeight = 1\<rparr>]
   \<and> (2::real) \<noteq> 0
   \<and> pickVariant \<lparr>product_id = 1, product_name = ''p'', variants = Some
       [\<lparr>variant_id = 1, price = 10, frontImage = ''a'', printAreaTop = 0, printAreaLeft = 0,
          printAreaWidth = 1, printAreaHeight = 1\<rparr>,
        \<lparr>variant_id = 2, price = 20, frontImage = ''b'', printAreaTop = 0, printAreaLeft = 0,
          printAreaWidth = 1, printAreaHeight = 1\<rparr>]\<rparr> (Some 2)
     = Some \<lparr>variant_id = 2, price = 20, frontImage = ''b'', printAreaTop = 0, printAreaLeft = 0,
          printAreaWidth = 1, printAreaHeight = 1\<rparr>
   \<and> pickVariant \<lparr>product_id = 1, product_name = ''p'', variants = Some
       [\<lparr>variant_id = 1, price = 10, frontImage = ''a'', printAreaTop = 0, printAreaLeft = 0,
          printAreaWidth = 1, printAreaHeight = 1\<rparr>,
        \<lparr>variant_id = 2, price = 20, frontImage = ''b'', printAreaTop = 0, printAreaLeft = 0,
          printAreaWidth = 1, printAreaHeight = 1\<rparr>]\<rparr> None
     = Some \<lparr>variant_id = 1, price = 10, frontImage = ''a'', printAreaTop = 0, printAreaLeft = 0,
          printAreaWidth = 1, printAreaHeight = 1\<rparr>"
  using pickVariant_cases
    [of "\<lparr>product_id = 1, product_name = ''p'', variants = Some
       [\<lparr>variant_id = 1, price = 10, frontImage = ''a'', printAreaTop = 0, printAreaLeft = 0,
          printAreaWidth = 1, printAreaHeight = 1\<rparr>,
        \<lparr>variant_id = 2, price = 20, frontImage = ''b'', printAreaTop = 0, printAreaLeft = 0,
          printAreaWidth = 1, printAreaHeight = 1\<rparr>]\<rparr>"
        None
        "\<lparr>variant_id = 1, price = 10, frontImage = ''a'', printAreaTop = 0, printAreaLeft = 0,
          printAreaWidth = 1, printAreaHeight = 1\<rparr>"
        "[\<lparr>variant_id = 2, price = 20, frontImage = ''b'', printAreaTop = 0, printAreaLeft = 0,
          printAreaWidth = 1, printAreaHeight = 1\<rparr>]"
        2]
  by simp

theorem pickVariant_zero_counterexample:
  "map_option variant_id
     (pickVariant \<lparr>product_id = 1, product_name = ''p'', variants = Some
        [\<lparr>variant_id = 1, price = 10, frontImage = ''a'', printAreaTop = 0, printAreaLeft = 0,
           printAreaWidth = 1, printAreaHeight = 1\<rparr>,
         \<lparr>variant_id = 0, price = 20, frontImage = ''b'', printAreaTop = 0, printAreaLeft = 0,
           printAreaWidth = 1, printAreaHeight = 1\<rparr>]\<rparr> (Some 0)) = Some 1
   \<and> map_option variant_id
     (pickVariant \<lparr>product_id = 1, product_name = ''p'', variants = Some
        [\<lparr>variant_id = 1, price = 10, frontImage = ''a'', printAreaTop = 0, printAreaLeft = 0,
           printAreaWidth = 1, printAreaHeight = 1\<rparr>,
         \<lparr>variant_id = 0, price = 20, frontImage = ''b'', printAreaTop = 0, printAreaLeft = 0,
           printAreaWidth = 1, printAreaHeight = 1\<rparr>]\<rparr> (Some 0)) \<noteq> Some 0"
  by (simp add: pickVariant_def)

section \<open>Objects and the safe zone after a drag or a resize\<close>

lemma image_onTransformEnd_item:
  "img_width (snd (image_onTransformEnd z item node)) = max 5 (node_width node * node_scaleX node)"
  "img_height (snd (image_onTransformEnd z item node)) = max 5 (node_height node * node_scaleY node)"
  "img_x (snd (image_onTransformEnd z item node)) =
     clamp (node_x node) (sz_x z) (sz_x z + sz_width z - max 5 (node_width node * node_scaleX node))"
  "img_y (snd (image_onTransformEnd z item node)) =
     clamp (node_y node) (sz_y z) (sz_y z + sz_height z - max 5 (node_height node * node_scaleY node))"
  "img_rotation (snd (image_onTransformEnd z item node)) = node_rotation node"
  "img_id (snd (image_onTransformEnd z item node)) = img_id item"
  by (simp_all add: image_onTransformEnd_def Let_def)

lemma text_onTransformEnd_item:
  "txt_fontSize (snd (text_onTransformEnd item node)) =
     max 12 (min 100 (txt_fontSize item * node_scaleX node))"
  "txt_x (snd (text_onTransformEnd item node)) = node_x node"
  "txt_y (snd (text_onTransformEnd item node)) = node_y node"
  "txt_rotation (snd (text_onTransformEnd item node)) = node_rotation node"
  "txt_id (snd (text_onTransformEnd item node)) = txt_id item"
  "txt_text (snd (text_onTransformEnd item node)) = txt_text item"
  by (simp_all add: text_onTransformEnd_def Let_def)

lemma dragNode_size:
  "node_width (dragNode (image_onDragMove z) node ps) = node_width node
   \<and> node_height (dragNode (image_onDragMove z) node ps) = node_height node"
  by (induction ps arbitrary: node) (simp_all add: dragNode_def image_onDragMove_fields)

lemma dragNode_snoc:
  "dragNode f node (ps @ [p]) = f ((dragNode f node ps)\<lparr>node_x := fst p, node_y := snd p\<rparr>)"
  by (simp add: dragNode_def)

lemma dragNode_image_last:
  assumes "ps \<noteq> []"
  shows "node_x (dragNode (image_onDragMove z) node ps) =
           clamp (fst (last ps)) (sz_x z) (sz_x z + sz_width z - node_width node)
       \<and> node_y (dragNode (image_onDragMove z) node ps) =
           clamp (snd (last ps)) (sz_y z) (sz_y z + sz_height z - node_height node)"
proof -
  from assms obtain qs p where ps: "ps = qs @ [p]"
    by (metis append_butlast_last_id)
  show ?thesis
    unfolding ps dragNode_snoc
    by (simp add: image_onDragMove_fields dragNode_size)
qed

lemma image_drag_in_zone:
  assumes "img_rotation item = 0" "0 \<le> img_width item" "img_width item \<le> sz_width z"
    "0 \<le> img_height item" "img_height item \<le> sz_height z" "ps \<noteq> []"
  shows "image_in_zone z (image_onDragEnd item (dragNode (image_onDragMove z) (image_node item) ps))"
proof -
  let ?n = "dragNode (image_onDragMove z) (image_node item) ps"
  let ?it = "image_onDragEnd item ?n"
  have f: "img_rotation ?it = 0" "img_width ?it = img_width item" "img_height ?it = img_height item"
    "img_x ?it = node_x ?n" "img_y ?it = node_y ?n"
    using assms(1) by (simp_all add: image_onDragEnd_def)
  have n: "node_x ?n = clamp (fst (last ps)) (sz_x z) (sz_x z + sz_width z - img_width item)"
    "node_y ?n = clamp (snd (last ps)) (sz_y z) (sz_y z + sz_height z - img_height item)"
    using dragNode_image_last [OF assms(6), of z "image_node item"]
    by (simp_all add: image_node_def)
  have "rect_in_zone z (img_x ?it) (img_y ?it) (img_width ?it) (img_height ?it)"
    using assms(3,5) unfolding f n by (auto simp add: rect_in_zone_def clamp_def)
  then show ?thesis
    using f assms(2,4) by (simp add: image_in_zone_unrotated)
qed

lemma image_resize_in_zone:
  assumes "node_rotation node = 0"
    "img_width (snd (image_onTransformEnd z item node)) \<le> sz_width z"
    "img_height (snd (image_onTransformEnd z item node)) \<le> sz_height z"
  shows "image_in_zone z (snd (image_onTransformEnd z item node))"
proof -
  let ?it = "snd (image_onTransformEnd z item node)"
  have p: "0 \<le> img_width ?it" "0 \<le> img_height ?it"
    by (simp_all add: image_onTransformEnd_item)
  have "rect_in_zone z (img_x ?it) (img_y ?it) (img_width ?it) (img_height ?it)"
    using assms(2,3) unfolding image_onTransformEnd_item
    by (auto simp add: rect_in_zone_def clamp_def)
  then show ?thesis
    using p assms(1) by (simp add: image_in_zone_unrotated image_onTransformEnd_item(5))
qed

text \<open>
  C1 (as the code has it). A resize never commits an image width or height below 5, nor
  a text font size below 12 or above 100, whatever the rotation. For an image that is
  not rotated, the drawn rectangle lies within the safe zone after a resize whose new
  width and height do not exceed the zone's, and after a drag (at least one move event)
  of an image whose width and height do not exceed the zone's.
\<close>

theorem resize_and_drag_bounds:
  "5 \<le> img_width (snd (image_onTransformEnd z item node))
   \<and> 5 \<le> img_height (snd (image_onTransformEnd z item node))
   \<and> 12 \<le> txt_fontSize (snd (text_onTransformEnd titem tnode))
   \<and> txt_fontSize (snd (text_onTransformEnd titem tnode)) \<le> 100
   \<and> (node_rotation node = 0
        \<and> img_width (snd (image_onTransformEnd z item node)) \<le> sz_width z
        \<and> img_height (snd (image_onTransformEnd z item node)) \<le> sz_height z
        \<longrightarrow> image_in_zone z (snd (image_onTransformEnd z item node)))
   \<and> (img_rotation item = 0
        \<and> 0 \<le> img_width item \<and> img_width item \<le> sz_width z
        \<and> 0 \<le> img_height item \<and> img_height item \<le> sz_height z
        \<and> ps \<noteq> []
        \<longrightarrow> image_in_zone z
              (image_onDragEnd item (dragNode (image_onDragMove z) (image_node item) ps)))"
proof (intro conjI impI)
  show "5 \<le> img_width (snd (image_onTransformEnd z item node))"
    by (simp add: image_onTransformEnd_item)
  show "5 \<le> img_height (snd (image_onTransformEnd z item node))"
    by (simp add: image_onTransformEnd_item)
  show "12 \<le> txt_fontSize (snd (text_onTransformEnd titem tnode))"
    by (simp add: text_onTransformEnd_item)
  show "txt_fontSize (snd (text_onTransformEnd titem tnode)) \<le> 100"
    by (simp add: text_onTransformEnd_item)
  show "image_in_zone z (snd (image_onTransformEnd z item node))"
    if "node_rotation node = 0
        \<and> img_width (snd (image_onTransformEnd z item node)) \<le> sz_width z
        \<and> img_height (snd (image_onTransformEnd z item node)) \<le> sz_height z"
    using that by (simp add: image_resize_in_zone)
  show "image_in_zone z
          (image_onDragEnd item (dragNode (image_onDragMove z) (image_node item) ps))"
    if "img_rotation item = 0
        \<and> 0 \<le> img_width item \<and> img_width item \<le> sz_width z
        \<and> 0 \<le> img_height item \<and> img_height item \<le> sz_height z
        \<and> ps \<noteq> []"
    using that by (simp add: image_drag_in_zone)
qed

theorem resize_and_drag_bounds_witness:
  "node_rotation (transformNode (image_node (scenarioImage 0))
      \<lparr>tr_x = 300, tr_y = 500, tr_scaleX = 1.5, tr_scaleY = 0.5, tr_rotation = 0\<rparr>) = 0
   \<and> snd (image_onTransformEnd scenarioZone (scenarioImage 0)
        (transformNode (image_node (scenarioImage 0))
           \<lparr>tr_x = 300, tr_y = 500, tr_scaleX = 1.5, tr_scaleY = 0.5, tr_rotation = 0\<rparr>))
      = \<lparr>img_id = ''img_1_a'', img_url = ''u'', img_x = 108, img_y = 433,
          img_width = 360, img_height = 120, img_rotation = 0\<rparr>
   \<and> image_in_zone scenarioZone
       (snd (image_onTransformEnd scenarioZone (scenarioImage 0)
          (transformNode (image_node (scenarioImage 0))
             \<lparr>tr_x = 300, tr_y = 500, tr_scaleX = 1.5, tr_scaleY = 0.5, tr_rotation = 0\<rparr>)))
   \<and> image_onDragEnd (scenarioImage 0)
        (dragNode (image_onDragMove scenarioZone) (image_node (scenarioImage 0)) [(- 50, - 50)])
      = \<lparr>img_id = ''img_1_a'', img_url = ''u'', img_x = 52, img_y = 137,
          img_width = 240, img_height = 240, img_rotation = 0\<rparr>
   \<and> image_in_zone scenarioZone
       (image_onDragEnd (scenarioImage 0)
          (dragNode (image_onDragMove scenarioZone) (image_node (scenarioImage 0))
             [(- 50, - 50)]))"
  using resize_and_drag_bounds
    [of scenarioZone "scenarioImage 0"
        "transformNode (image_node (scenarioImage 0))
           \<lparr>tr_x = 300, tr_y = 500, tr_scaleX = 1.5, tr_scaleY = 0.5, tr_rotation = 0\<rparr>"
        _ _ "[(- 50, - 50)]"]
  by (simp add: scenarioZone_def scenarioImage_def transformNode_def image_node_def
      image_onTransformEnd_def image_onDragEnd_def image_onDragMove_def dragNode_def
      clamp_def Let_def)

text \<open>
  Where the containment fails: a resize to a width beyond the zone's, which
  \<^verbatim>\<open>boundBoxFunc\<close> lets through; a drag of an image turned by 90 degrees; a drag of
  the default text, whose position is the centre of the text and not its corner.
\<close>

theorem placed_object_outside_counterexample:
  "boundBoxFunc (Some scenarioZone)
      \<lparr>box_x = 100, box_y = 200, box_width = 240, box_height = 240, box_rotation = 0\<rparr>
      \<lparr>box_x = 100, box_y = 200, box_width = 480, box_height = 240, box_rotation = 0\<rparr>
    = \<lparr>box_x = - 12, box_y = 200, box_width = 480, box_height = 240, box_rotation = 0\<rparr>
   \<and> \<not> image_in_zone scenarioZone
       (snd (image_onTransformEnd scenarioZone (scenarioImage 0)
          (transformNode (image_node (scenarioImage 0))
             \<lparr>tr_x = - 12, tr_y = 200, tr_scaleX = 2, tr_scaleY = 1, tr_rotation = 0\<rparr>)))
   \<and> \<not> image_in_zone scenarioZone
       (image_onDragEnd (scenarioImage 90)
          (dragNode (image_onDragMove scenarioZone) (image_node (scenarioImage 90))
             [(150, 250)]))
   \<and> \<not> text_in_zone estimatedMetrics scenarioZone
       (text_onDragEnd scenarioText
          (dragNode (text_onDragMove scenarioZone) (text_node estimatedMetrics scenarioText)
             [(0, 0)]))"
  by (simp add: scenarioZone_def scenarioImage_def scenarioText_def transformNode_def
      boundBoxFunc_def Let_def image_onTransformEnd_def clamp_def
      image_in_zone_def drawn_in_zone_def point_in_zone_def place_def
      image_onDragEnd_def dragNode_def image_node_def image_onDragMove_def
      text_in_zone_def text_onDragEnd_def text_onDragMove_def text_node_def
      estimatedMetrics_def text_offsetX_def text_offsetY_def newText_def)

section \<open>Object ids\<close>

lemma digit_inj:
  assumes "a < 10" "b < 10" "digit a = digit b"
  shows "a = b"
proof -
  have d: "distinct ''0123456789''" by simp
  have l: "length ''0123456789'' = 10" by simp
  from assms(3) have "''0123456789'' ! a = ''0123456789'' ! b"
    by (simp only: digit_def)
  with nth_eq_iff_index_eq [OF d, of a b] assms(1,2) l show "a = b"
    by simp
qed

lemma below_ten:
  "d < 10 \<Longrightarrow> d \<in> {0, 1, 2, 3, 4, 5, 6, 7, 8, 9::nat}"
  by auto

lemma digit_not_underscore:
  assumes "d < 10"
  shows "digit d \<noteq> CHR ''_''"
  using below_ten [OF assms] by (auto simp add: digit_def)

lemma decimal_small: "n < 10 \<Longrightarrow> decimal n = [digit n]"
  by (simp add: decimal.simps)

lemma decimal_large: "\<not> n < 10 \<Longrightarrow> decimal n = decimal (n div 10) @ [digit (n mod 10)]"
  by (simp add: decimal.simps [of n])

lemma decimal_nonempty: "decimal n \<noteq> []"
  by (cases "n < 10") (simp_all add: decimal_small decimal_large)

lemma decimal_no_underscore: "CHR ''_'' \<notin> set (decimal n)"
proof (induction n rule: decimal.induct)
  case (1 n)
  show ?case
  proof (cases "n < 10")
    case True
    then show ?thesis
      using digit_not_underscore [of n] by (auto simp add: decimal_small)
  next
    case False
    have "n mod 10 < 10" by simp
    then have "digit (n mod 10) \<noteq> CHR ''_''" by (rule digit_not_underscore)
    with False "1.IH" show ?thesis
      by (auto simp add: decimal_large)
  qed
qed

lemma decimal_inj: "decimal n = decimal m \<Longrightarrow> n = m"
proof (induction n arbitrary: m rule: decimal.induct)
  case (1 n)
  show ?case
  proof (cases "n < 10")
    case n: True
    show ?thesis
    proof (cases "m < 10")
      case True
      with n "1.prems" show ?thesis
        by (simp add: decimal_small digit_inj)
    next
      case False
      with n "1.prems" decimal_nonempty [of "m div 10"] show ?thesis
        by (auto simp add: decimal_small decimal_large)
    qed
  next
    case n: False
    show ?thesis
    proof (cases "m < 10")
      case True
      with n "1.prems" decimal_nonempty [of "n div 10"] show ?thesis
        by (auto simp add: decimal_small decimal_large)
    next
      case False
      with n "1.prems" have e: "decimal (n div 10) = decimal (m div 10)"
        and d: "digit (n mod 10) = digit (m mod 10)"
        by (simp_all add: decimal_large)
      from "1.IH" [OF n e] have q: "n div 10 = m div 10" .
      have "n mod 10 < 10" "m mod 10 < 10" by simp_all
      then have r: "n mod 10 = m mod 10" using d by (rule digit_inj)
      from q r show ?thesis
        by (metis div_mult_mod_eq)
    qed
  qed
qed

lemma split_at_underscore:
  assumes "CHR ''_'' \<notin> set xs" "CHR ''_'' \<notin> set ys" "xs @ CHR ''_'' # r = ys @ CHR ''_'' # r'"
  shows "xs = ys \<and> r = r'"
  using assms
proof (induction xs arbitrary: ys)
  case Nil
  then show ?case by (cases ys) auto
next
  case (Cons x xs)
  then show ?case by (cases ys) auto
qed

lemma image_id_inj: "image_id n r = image_id n' r' \<longleftrightarrow> n = n' \<and> r = r'"
proof
  assume "image_id n r = image_id n' r'"
  then have "decimal n @ CHR ''_'' # r = decimal n' @ CHR ''_'' # r'"
    by (simp add: image_id_def)
  from split_at_underscore [OF decimal_no_underscore decimal_no_underscore this]
  show "n = n' \<and> r = r'" by (simp add: decimal_inj)
qed simp

lemma text_id_inj: "text_id n r = text_id n' r' \<longleftrightarrow> n = n' \<and> r = r'"
proof
  assume "text_id n r = text_id n' r'"
  then have "decimal n @ CHR ''_'' # r = decimal n' @ CHR ''_'' # r'"
    by (simp add: text_id_def)
  from split_at_underscore [OF decimal_no_underscore decimal_no_underscore this]
  show "n = n' \<and> r = r'" by (simp add: decimal_inj)
qed simp

lemma image_id_not_text_id: "image_id n r \<noteq> text_id n' r'"
  by (simp add: image_id_def text_id_def)


section \<open>Objects and selection of a session\<close>

lemma dragObject_id: "obj_id (dragObject metrics z item ps) = obj_id item"
  by (cases item) (simp_all add: dragObject_def image_onDragEnd_def text_onDragEnd_def)

lemma transformObject_id: "obj_id (transformObject metrics z item t) = obj_id item"
  by (cases item)
    (simp_all add: transformObject_def image_onTransformEnd_def text_onTransformEnd_def Let_def)

lemma onChange_ids:
  "obj_id next = obj_id item \<Longrightarrow> objectIds (onChange item next s) = objectIds s"
  by (simp add: objectIds_def onChange_def comp_def cong: map_cong)


lemma centerHorizontally_ids:
  "objectIds (centerHorizontally zone s) = objectIds s
   \<and> selectedId (centerHorizontally zone s) = selectedId s"
  by (auto simp add: objectIds_def centerHorizontally_def comp_def
      split: option.splits DesignObject.splits intro!: map_cong)

lemma centerVertically_ids:
  "objectIds (centerVertically zone s) = objectIds s
   \<and> selectedId (centerVertically zone s) = selectedId s"
  by (auto simp add: objectIds_def centerVertically_def comp_def
      split: option.splits DesignObject.splits intro!: map_cong)

lemma applyPatch_id: "txt_id (applyPatch patch tx) = txt_id tx"
  by (cases patch) simp_all

lemma updateSelectedText_ids:
  "objectIds (updateSelectedText patch s) = objectIds s
   \<and> selectedId (updateSelectedText patch s) = selectedId s"
  by (auto simp add: objectIds_def updateSelectedText_def comp_def applyPatch_id
      split: option.splits DesignObject.splits intro!: map_cong)

lemma addText_eq:
  "addText (Some z) now rnd s =
     s\<lparr>objects := objects s @ [TextObj (newText z (text_id now rnd))],
       selectedId := Some (text_id now rnd)\<rparr>"
  by (simp add: addText_def Let_def)

lemma upload_eq:
  "onUploadFileSelected (Some z) (Some url) now rnd s =
     Inr (s\<lparr>objects := objects s @ [ImageObj (newImage z (image_id now rnd) url)],
            selectedId := Some (image_id now rnd)\<rparr>)"
  by (simp add: onUploadFileSelected_def Let_def)

lemma newText_id: "txt_id (newText z i) = i"
  by (simp add: newText_def)




lemma addText_ids:
  "objectIds (addText (Some z) now rnd s) = objectIds s @ [text_id now rnd]"
  "selectedId (addText (Some z) now rnd s) = Some (text_id now rnd)"
  "addText None now rnd s = s"
  by (simp_all add: addText_def objectIds_def Let_def newText_def)

lemma upload_ids:
  "onUploadFileSelected (Some z) (Some url) now rnd s = Inr s' \<Longrightarrow>
     objectIds s' = objectIds s @ [image_id now rnd] \<and> selectedId s' = Some (image_id now rnd)"
  "onUploadFileSelected None asset now rnd s = Inl PrintAreaNotReady"
  "onUploadFileSelected (Some z) None now rnd s = Inl UploadFailed"
  by (auto simp add: onUploadFileSelected_def objectIds_def Let_def newImage_def)

lemma deleteSelected_ids:
  "objectIds (deleteSelected s) =
     (case truthyId (selectedId s) of
        None \<Rightarrow> objectIds s
      | Some i \<Rightarrow> filter (\<lambda>j. j \<noteq> i) (objectIds s))"
  "selectedId (deleteSelected s) =
     (case truthyId (selectedId s) of None \<Rightarrow> selectedId s | Some i \<Rightarrow> None)"
  by (simp_all add: deleteSelected_def objectIds_def filter_map comp_def split: option.splits)




lemma stamped_mono: "P \<subseteq> Q \<Longrightarrow> stamped P \<subseteq> stamped Q"
  by (auto simp add: stamped_def)

lemma stamped_insert:
  "image_id n r \<in> stamped (insert (n, r) P)" "text_id n r \<in> stamped (insert (n, r) P)"
  by (auto simp add: stamped_def)

lemma stamped_fresh:
  "(n, r) \<notin> P \<Longrightarrow> image_id n r \<notin> stamped P \<and> text_id n r \<notin> stamped P"
  by (auto simp add: stamped_def image_id_inj text_id_inj image_id_not_text_id
      image_id_not_text_id [symmetric])

lemma step_stamped:
  assumes "set (objectIds s) \<subseteq> stamped P"
  shows "set (objectIds (step metrics zone e s)) \<subseteq> stamped (P \<union> set (stamp e))"
proof -
  have m: "stamped P \<subseteq> stamped (P \<union> set (stamp e))"
    by (rule stamped_mono) simp
  show ?thesis
  proof (cases e)
    case (UploadFile asset now rnd)
    show ?thesis
    proof (cases "onUploadFileSelected zone asset now rnd s")
      case (Inl err)
      with assms m UploadFile show ?thesis by auto
    next
      case (Inr s')
      then obtain z url where "zone = Some z" "asset = Some url"
        by (cases zone; cases asset) (simp_all add: upload_ids)
      with Inr have "objectIds s' = objectIds s @ [image_id now rnd]"
        using upload_ids(1) by blast
      with assms m UploadFile Inr show ?thesis
        using stamped_insert(1) [of now rnd P] by auto
    qed
  next
    case (AddText now rnd)
    with assms m show ?thesis
      using stamped_insert(2) [of now rnd P]
      by (cases zone) (auto simp add: addText_ids)
  next
    case (ClickObject k)
    with assms show ?thesis
      by (auto simp add: objectIds_def split: option.splits)
  next
    case ClickStage
    with assms show ?thesis by (simp add: objectIds_def)
  next
    case (DragObject k ps)
    with assms show ?thesis
      by (auto simp add: onChange_ids dragObject_id split: option.splits)
  next
    case (TransformObject k t)
    with assms show ?thesis
      by (auto simp add: onChange_ids transformObject_id split: option.splits)
  next
    case CenterHorizontally
    with assms show ?thesis by (simp add: centerHorizontally_ids)
  next
    case CenterVertically
    with assms show ?thesis by (simp add: centerVertically_ids)
  next
    case DeleteSelected
    with assms show ?thesis
      by (auto simp add: deleteSelected_ids split: option.splits)
  next
    case (UpdateSelectedText patch)
    with assms show ?thesis by (simp add: updateSelectedText_ids)
  qed
qed

lemma foldl_stamped:
  "set (objectIds s) \<subseteq> stamped P \<Longrightarrow>
   set (objectIds (foldl (\<lambda>s ze. step metrics (fst ze) (snd ze) s) s zes))
     \<subseteq> stamped (P \<union> set (stamps (map snd zes)))"
proof (induction zes arbitrary: s P)
  case Nil
  then show ?case by (simp add: stamps_def)
next
  case (Cons ze zes)
  from step_stamped [OF Cons.prems]
  have "set (objectIds (step metrics (fst ze) (snd ze) s)) \<subseteq> stamped (P \<union> set (stamp (snd ze)))" .
  from Cons.IH [OF this] show ?case
    by (simp add: stamps_def Un_assoc)
qed

lemma run_stamped:
  "set (objectIds (run metrics zes)) \<subseteq> stamped (set (stamps (map snd zes)))"
  using foldl_stamped [of emptySession "{}" metrics zes]
  by (simp add: run_def emptySession_def objectIds_def)

lemma run_fresh:
  assumes "(now, rnd) \<notin> set (stamps (map snd zes))"
  shows "image_id now rnd \<notin> set (objectIds (run metrics zes))
       \<and> text_id now rnd \<notin> set (objectIds (run metrics zes))"
  using stamped_fresh [OF assms] run_stamped [of metrics zes] by blast






text \<open>
  C8 (as the code has it). A successful upload and \<^verbatim>\<open>addText\<close> append the new object
  at the end of the list and select it. Its id is \<^verbatim>\<open>img_\<close> or \<^verbatim>\<open>txt_\<close> followed by the
  clock value, an underscore and the random digits: ids of the two kinds differ, and two
  ids of one kind are equal only when both the clock value and the random digits are. The
  existing ids are not consulted; the new id differs from every id of the session when
  its pair of clock value and random digits was not used by an earlier event.
\<close>

theorem add_appends_and_selects:
  "onUploadFileSelected (Some z) (Some url) now rnd s =
     Inr (s\<lparr>objects := objects s @ [ImageObj (newImage z (image_id now rnd) url)],
            selectedId := Some (image_id now rnd)\<rparr>)
   \<and> obj_id (ImageObj (newImage z (image_id now rnd) url)) = image_id now rnd
   \<and> addText (Some z) now rnd s =
       s\<lparr>objects := objects s @ [TextObj (newText z (text_id now rnd))],
         selectedId := Some (text_id now rnd)\<rparr>
   \<and> obj_id (TextObj (newText z (text_id now rnd))) = text_id now rnd
   \<and> (image_id now rnd = image_id now' rnd' \<longleftrightarrow> now = now' \<and> rnd = rnd')
   \<and> (text_id now rnd = text_id now' rnd' \<longleftrightarrow> now = now' \<and> rnd = rnd')
   \<and> image_id now rnd \<noteq> text_id now' rnd'
   \<and> ((now, rnd) \<notin> set (stamps (map snd zes)) \<longrightarrow>
        image_id now rnd \<notin> set (objectIds (run metrics zes))
      \<and> text_id now rnd \<notin> set (objectIds (run metrics zes)))"
proof (intro conjI impI)
  show "image_id now rnd \<notin> set (objectIds (run metrics zes))"
    if "(now, rnd) \<notin> set (stamps (map snd zes))"
    using run_fresh [OF that] by simp
  show "text_id now rnd \<notin> set (objectIds (run metrics zes))"
    if "(now, rnd) \<notin> set (stamps (map snd zes))"
    using run_fresh [OF that] by simp
qed (simp_all add: upload_eq addText_eq newImage_fields newText_id image_id_inj text_id_inj
    image_id_not_text_id)

lemma two_texts_ids:
  "objectIds (run estimatedMetrics (twoTexts ''c'')) = [''txt_7_a'', ''txt_8_c'']"
  "text_id 8 ''b'' = ''txt_8_b''"
  "stamps (map snd (twoTexts ''c'')) = [(7, ''a''), (8, ''c'')]"
  by (simp_all add: twoTexts_def stamps_def run_def emptySession_def addText_def Let_def
      text_id_def decimal.simps digit_def objectIds_def newText_def)

theorem add_appends_and_selects_witness:
  "(8, ''b'') \<notin> set (stamps (map snd (twoTexts ''c'')))
   \<and> objectIds (run estimatedMetrics (twoTexts ''c''))
       = [''txt_7_a'', ''txt_8_c'']
   \<and> text_id 8 ''b'' = ''txt_8_b''
   \<and> text_id 8 ''b''
       \<notin> set (objectIds (run estimatedMetrics (twoTexts ''c'')))"
proof -
  have h: "(8, ''b'') \<notin> set (stamps (map snd (twoTexts ''c'')))"
    by (simp add: two_texts_ids)
  from add_appends_and_selects
    [where z = scenarioZone and url = "''u''" and now = 8 and rnd = "''b''"
       and s = emptySession and now' = 8 and rnd' = "''b''" and metrics = estimatedMetrics
       and zes = "twoTexts ''c''"]
  have "(8, ''b'') \<notin> set (stamps (map snd (twoTexts ''c''))) \<longrightarrow>
      image_id 8 ''b''
        \<notin> set (objectIds (run estimatedMetrics (twoTexts ''c'')))
      \<and> text_id 8 ''b''
        \<notin> set (objectIds (run estimatedMetrics (twoTexts ''c'')))"
    by (elim conjE)
  with h show ?thesis
    by (simp add: two_texts_ids)
qed

theorem add_same_stamp_counterexample:
  "text_id 5 ''8'' \<in> set (objectIds (addText (Some scenarioZone) 5 ''8'' emptySession))
   \<and> objectIds (addText (Some scenarioZone) 5 ''8''
        (addText (Some scenarioZone) 5 ''8'' emptySession)) = [''txt_5_8'', ''txt_5_8'']"
  by (simp add: emptySession_def addText_def Let_def text_id_def
      decimal.simps digit_def objectIds_def newText_def)

section \<open>The in-flight guard of the cart\<close>

lemma doAddToCart_in_flight:
  "authenticated s \<Longrightarrow> productReady s \<Longrightarrow> isAddingToCart s \<Longrightarrow> doAddToCart s = s"
  by (simp add: doAddToCart_def)

lemma doAddToCart_idle:
  "cartIdle s \<Longrightarrow>
   doAddToCart s = s\<lparr>isAddingToCart := True, inFlight := [AwaitExport], exports := Suc (exports s)\<rparr>"
  by (simp add: doAddToCart_def cartIdle_def)

lemma cartStep_auth:
  "authenticated (cartStep e s) = authenticated s \<and> productReady (cartStep e s) = productReady s"
  by (cases e) (auto simp add: doAddToCart_def settle_def finish_def split: Await.splits Outcome.splits)

lemma cartRun_auth:
  "authenticated (cartRun es s) = authenticated s \<and> productReady (cartRun es s) = productReady s"
  unfolding cartRun_def
  by (induction es arbitrary: s) (simp_all add: cartStep_auth)

lemma cartRun_append: "cartRun (xs @ ys) s = cartRun ys (cartRun xs s)"
  by (simp add: cartRun_def)

lemma cartRun_Cons: "cartRun (e # es) s = cartRun es (cartStep e s)"
  by (simp add: cartRun_def)

lemma cartRun_Nil: "cartRun [] s = s"
  by (simp add: cartRun_def)

lemma second_trigger_noop:
  assumes "cartIdle s" "isAddingToCart (cartRun (Trigger # pre) s)"
  shows "cartRun (Trigger # pre @ Trigger # post) s = cartRun (Trigger # pre @ post) s"
proof -
  let ?t = "cartRun (Trigger # pre) s"
  from assms(1) have "authenticated ?t" "productReady ?t"
    by (simp_all add: cartRun_auth cartIdle_def)
  with assms(2) have "doAddToCart ?t = ?t"
    by (simp add: doAddToCart_in_flight)
  then have "cartRun (Trigger # post) ?t = cartRun post ?t"
    by (simp add: cartRun_Cons)
  then show ?thesis
    using cartRun_append [of "Trigger # pre" "Trigger # post" s]
      cartRun_append [of "Trigger # pre" post s] by simp
qed

lemma cartStep_guard: "cartGuard s \<Longrightarrow> cartGuard (cartStep e s)"
proof (cases e)
  case Trigger
  assume "cartGuard s"
  with Trigger show ?thesis
    by (auto simp add: cartGuard_def doAddToCart_def)
next
  case (Settle k outcome)
  assume "cartGuard s"
  with Settle show ?thesis
    by (auto simp add: cartGuard_def settle_def finish_def split: Await.splits Outcome.splits)
qed

lemma cartRun_guard: "cartGuard s \<Longrightarrow> cartGuard (cartRun es s)"
  unfolding cartRun_def
  by (induction es arbitrary: s) (simp_all add: cartStep_guard)

lemma successful_flight:
  assumes "cartIdle s"
  shows "cartRun [Trigger, Settle 0 Fulfilled, Settle 0 Fulfilled, Settle 0 Fulfilled] s =
     s\<lparr>isAddingToCart := False, inFlight := [], exports := Suc (exports s),
       uploads := Suc (uploads s), cartAdds := Suc (cartAdds s),
       toasts := toasts s @ [''Added to cart'']\<rparr>"
  using assms
  by (simp add: cartRun_def doAddToCart_idle settle_def finish_def cartIdle_def)

lemma in_flight_after:
  assumes "cartIdle s"
  shows "isAddingToCart (cartRun [Trigger] s)"
    "isAddingToCart (cartRun [Trigger, Settle 0 Fulfilled] s)"
    "isAddingToCart (cartRun [Trigger, Settle 0 Fulfilled, Settle 0 Fulfilled] s)"
  using assms
  by (simp_all add: cartRun_def doAddToCart_idle settle_def finish_def cartIdle_def)

lemma prefixes3:
  assumes "pre @ post = [a, b, c]" "post \<noteq> []"
  shows "pre = [] \<or> pre = [a] \<or> pre = [a, b]"
  using assms by (auto simp add: append_eq_Cons_conv Cons_eq_append_conv)

text \<open>
  C6. With the user signed in and the product loaded, a trigger of \<^verbatim>\<open>addToCart\<close> while
  \<^verbatim>\<open>isAddingToCart\<close> is set changes nothing. So when a first trigger is still in
  flight, a second trigger leaves the whole run as it would be without it; if every call
  of the first invocation succeeds, the pair of triggers issues exactly one export, one
  upload and one cart-add call. From an idle state at most one invocation is ever in
  flight.
\<close>

theorem second_addToCart_ignored:
  "(authenticated s \<and> productReady s \<and> isAddingToCart s \<longrightarrow> doAddToCart s = s)
   \<and> (cartIdle s \<and> isAddingToCart (cartRun (Trigger # pre) s) \<longrightarrow>
        cartRun (Trigger # pre @ Trigger # post) s = cartRun (Trigger # pre @ post) s)
   \<and> (cartIdle s \<and> pre @ post = [Settle 0 Fulfilled, Settle 0 Fulfilled, Settle 0 Fulfilled] \<and> post \<noteq> [] \<longrightarrow>
        exports (cartRun (Trigger # pre @ Trigger # post) s) = exports s + 1
      \<and> uploads (cartRun (Trigger # pre @ Trigger # post) s) = uploads s + 1
      \<and> cartAdds (cartRun (Trigger # pre @ Trigger # post) s) = cartAdds s + 1
      \<and> \<not> isAddingToCart (cartRun (Trigger # pre @ Trigger # post) s))
   \<and> (cartIdle s \<longrightarrow> length (inFlight (cartRun es s)) \<le> 1)"
proof (intro conjI impI)
  show "doAddToCart s = s" if "authenticated s \<and> productReady s \<and> isAddingToCart s"
    using that by (simp add: doAddToCart_in_flight)
  show "cartRun (Trigger # pre @ Trigger # post) s = cartRun (Trigger # pre @ post) s"
    if "cartIdle s \<and> isAddingToCart (cartRun (Trigger # pre) s)"
    using that by (simp add: second_trigger_noop)
  show "length (inFlight (cartRun es s)) \<le> 1" if "cartIdle s"
  proof -
    from that have "cartGuard s" by (simp add: cartGuard_def cartIdle_def)
    then have "cartGuard (cartRun es s)" by (rule cartRun_guard)
    then show ?thesis by (simp add: cartGuard_def)
  qed
next
  assume a: "cartIdle s \<and> pre @ post = [Settle 0 Fulfilled, Settle 0 Fulfilled, Settle 0 Fulfilled] \<and> post \<noteq> []"
  then have idle: "cartIdle s" and pp: "pre @ post = [Settle 0 Fulfilled, Settle 0 Fulfilled, Settle 0 Fulfilled]"
    by simp_all
  from a have "pre = [] \<or> pre = [Settle 0 Fulfilled] \<or> pre = [Settle 0 Fulfilled, Settle 0 Fulfilled]"
    by (intro prefixes3 [of pre post]) simp_all
  then have "isAddingToCart (cartRun (Trigger # pre) s)"
  proof (elim disjE)
    assume "pre = []"
    then show ?thesis using in_flight_after(1) [OF idle] by simp
  next
    assume "pre = [Settle 0 Fulfilled]"
    then show ?thesis using in_flight_after(2) [OF idle] by simp
  next
    assume "pre = [Settle 0 Fulfilled, Settle 0 Fulfilled]"
    then show ?thesis using in_flight_after(3) [OF idle] by simp
  qed
  with idle have "cartRun (Trigger # pre @ Trigger # post) s = cartRun (Trigger # pre @ post) s"
    by (simp add: second_trigger_noop)
  then have e: "cartRun (Trigger # pre @ Trigger # post) s =
      cartRun [Trigger, Settle 0 Fulfilled, Settle 0 Fulfilled, Settle 0 Fulfilled] s"
    by (simp add: pp)
  show "exports (cartRun (Trigger # pre @ Trigger # post) s) = exports s + 1"
    "uploads (cartRun (Trigger # pre @ Trigger # post) s) = uploads s + 1"
    "cartAdds (cartRun (Trigger # pre @ Trigger # post) s) = cartAdds s + 1"
    "\<not> isAddingToCart (cartRun (Trigger # pre @ Trigger # post) s)"
    by (simp_all only: e successful_flight [OF idle]) simp_all
qed

theorem second_addToCart_ignored_witness:
  "cartIdle signedInCheckout
   \<and> isAddingToCart (cartRun [Trigger, Settle 0 Fulfilled] signedInCheckout)
   \<and> [Settle 0 Fulfilled] @ [Settle 0 Fulfilled, Settle 0 Fulfilled]
       = [Settle 0 Fulfilled, Settle 0 Fulfilled, Settle 0 Fulfilled]
   \<and> cartRun [Trigger, Settle 0 Fulfilled, Trigger, Settle 0 Fulfilled, Settle 0 Fulfilled] signedInCheckout
       = signedInCheckout\<lparr>exports := 1, uploads := 1, cartAdds := 1,
           toasts := [''Added to cart'']\<rparr>
   \<and> length (inFlight (cartRun [Trigger, Trigger] signedInCheckout)) = 1"
  using second_addToCart_ignored
    [of signedInCheckout "[Settle 0 Fulfilled]" "[Settle 0 Fulfilled, Settle 0 Fulfilled]" "[Trigger, Trigger]"]
  by (simp add: signedInCheckout_def cartIdle_def cartRun_def doAddToCart_def settle_def finish_def)

text \<open>
  For comparison: a second trigger after the first invocation has finished is not
  ignored, and the two invocations issue two uploads and two cart-add calls.
\<close>

lemma trigger_after_completion_runs_again:
  "cartRun [Trigger, Settle 0 Fulfilled, Settle 0 Fulfilled, Settle 0 Fulfilled,
            Trigger, Settle 0 Fulfilled, Settle 0 Fulfilled, Settle 0 Fulfilled] signedInCheckout
     = signedInCheckout\<lparr>exports := 2, uploads := 2, cartAdds := 2,
         toasts := [''Added to cart'', ''Added to cart'']\<rparr>"
  by (simp add: signedInCheckout_def cartRun_def doAddToCart_def settle_def finish_def)

end
